theory Spec2Isabelle
  imports Main "HOL-Library.Word" "HOL-Library.Monad_Syntax"
begin

section \<open>Arrays and runtime panics\<close>

text \<open>
  Go's \<open>int\<close> is modelled as \<open>int\<close>: every index computed by the suffix sort and the diff
  is bounded by a small multiple of a buffer length, so no wrap-around occurs there.
  A byte is an \<open>8 word\<close>. Slices are lists. An access outside a slice panics in Go; in the
  model such an access yields \<open>None\<close>, and the option monad propagates the panic.
\<close>

type_synonym byte = "8 word"

definition idx :: "'a list \<Rightarrow> int \<Rightarrow> 'a option" where
  "idx a i = (if 0 \<le> i \<and> i < int (length a) then Some (a ! nat i) else None)"

definition upd :: "'a list \<Rightarrow> int \<Rightarrow> 'a \<Rightarrow> 'a list option" where
  "upd a i v = (if 0 \<le> i \<and> i < int (length a) then Some (a[nat i := v]) else None)"

definition slice_from :: "'a list \<Rightarrow> int \<Rightarrow> 'a list option" where
  "slice_from a i = (if 0 \<le> i \<and> i \<le> int (length a) then Some (drop (nat i) a) else None)"

definition slice_to :: "'a list \<Rightarrow> int \<Rightarrow> 'a list option" where
  "slice_to a i = (if 0 \<le> i \<and> i \<le> int (length a) then Some (take (nat i) a) else None)"

text \<open>\<open>swap(a, i, j)\<close>: \<open>a[i], a[j] = a[j], a[i]\<close>.\<close>

definition swap :: "int list \<Rightarrow> int \<Rightarrow> int \<Rightarrow> int list option" where
  "swap a i j = do {
     x \<leftarrow> idx a j;
     y \<leftarrow> idx a i;
     a1 \<leftarrow> upd a i x;
     upd a1 j y
   }"


lemma length_swap: "swap a i j = Some b \<Longrightarrow> length b = length a"
  by (auto simp: swap_def upd_def idx_def split: if_splits Option.bind_splits)

lemma swap_in_range: "swap a i j = Some b \<Longrightarrow> 0 \<le> i \<and> i < int (length a) \<and> 0 \<le> j \<and> j < int (length a)"
  by (auto simp: swap_def upd_def idx_def split: if_splits Option.bind_splits)

section \<open>Ternary-split quicksort (\<open>split\<close>)\<close>

text \<open>
  The selection sort used for groups shorter than 16. \<open>split_min\<close> is the loop
  \<open>for i = 1; k+i < start+length; i++\<close>: it moves the elements with the smallest key
  \<open>V[I[k+i]+h]\<close> to the front of \<open>I[k..]\<close>, counting them in \<open>j\<close>. The source reads the key twice
  with no write in between; the model reads it once.
\<close>

function split_min :: "int list \<Rightarrow> int list \<Rightarrow> int \<Rightarrow> int \<Rightarrow> int \<Rightarrow> int \<Rightarrow> int \<Rightarrow> int
    \<Rightarrow> (int list \<times> int \<times> int) option" where
  "split_min I V k stop h i j x =
     (if k + i < stop then do {
        a \<leftarrow> idx I (k + i);
        key \<leftarrow> idx V (a + h);
        let x1 = (if key < x then key else x);
        let j1 = (if key < x then 0 else j);
        if key = x1 then do {
          I1 \<leftarrow> swap I (k + i) (k + j1);
          split_min I1 V k stop h (i + 1) (j1 + 1) x1
        } else split_min I V k stop h (i + 1) j1 x1
      } else Some (I, j, x))"
  by pat_completeness auto
termination
proof (relation "measure (\<lambda>(I, V, k, stop, h, i, j, x). nat (stop - (k + i)))", goal_cases)
  case 1
  show ?case by simp
next
  case (2 I V k stop h i j x a key x1 j1 I1)
  from 2(1) show ?case by simp
next
  case (3 I V k stop h i j x a key x1 j1)
  from 3(1) show ?case by simp
qed

declare split_min.simps [simp del]

text \<open>The loop \<open>for i = 0; i < cnt; i++ { V[I[base+i]] = base + cnt - 1 }\<close>, which gives a
  group its rank; it occurs twice in \<open>split\<close>.\<close>

function set_rank :: "int list \<Rightarrow> int list \<Rightarrow> int \<Rightarrow> int \<Rightarrow> int \<Rightarrow> int list option" where
  "set_rank I V base cnt i =
     (if i < cnt then do {
        a \<leftarrow> idx I (base + i);
        V1 \<leftarrow> upd V a (base + cnt - 1);
        set_rank I V1 base cnt (i + 1)
      } else Some V)"
  by pat_completeness auto
termination
  by (relation "measure (\<lambda>(I, V, base, cnt, i). nat (cnt - i))") auto

declare set_rank.simps [simp del]

lemma split_min_unfold:
  "split_min I V k stop h i j x =
     (if k + i < stop then do {
        a \<leftarrow> idx I (k + i);
        key \<leftarrow> idx V (a + h);
        if key < x then do {
          I1 \<leftarrow> swap I (k + i) k;
          split_min I1 V k stop h (i + 1) 1 key
        } else if key = x then do {
          I1 \<leftarrow> swap I (k + i) (k + j);
          split_min I1 V k stop h (i + 1) (j + 1) x
        } else split_min I V k stop h (i + 1) j x
      } else Some (I, j, x))"
  by (subst split_min.simps) (auto simp: Let_def intro!: Option.bind_cong)

lemma split_min_j_pos:
  "split_min I V k stop h i j x = Some (I', j', x') \<Longrightarrow> 1 \<le> j \<Longrightarrow> 1 \<le> j'"
proof (induction "nat (stop - (k + i))" arbitrary: I i j x)
  case 0
  then show ?case by (subst (asm) split_min_unfold) simp
next
  case (Suc n)
  from Suc.hyps(2) have lt: "k + i < stop" and n: "n = nat (stop - (k + (i + 1)))" by auto
  from Suc.prems(1) lt obtain a key where a: "idx I (k + i) = Some a"
    and key: "idx V (a + h) = Some key"
    by (subst (asm) split_min_unfold) (auto split: Option.bind_splits)
  from Suc.prems(1) lt a key consider
    I1 where "key < x" "split_min I1 V k stop h (i + 1) 1 key = Some (I', j', x')"
  | I1 where "key = x" "split_min I1 V k stop h (i + 1) (j + 1) x = Some (I', j', x')"
  | "split_min I V k stop h (i + 1) j x = Some (I', j', x')"
    by (subst (asm) split_min_unfold) (auto split: Option.bind_splits if_splits)
  then show ?case
  proof cases
    case 1
    from Suc.hyps(1)[OF n 1(2)] show ?thesis by simp
  next
    case 2
    from Suc.hyps(1)[OF n 2(2)] Suc.prems(2) show ?thesis by simp
  next
    case 3
    from Suc.hyps(1)[OF n 3 Suc.prems(2)] show ?thesis .
  qed
qed

text \<open>The loop \<open>for k = start; k < start+length; k += j\<close> of the selection sort.\<close>

function split_small :: "int list \<Rightarrow> int list \<Rightarrow> int \<Rightarrow> int \<Rightarrow> int \<Rightarrow> (int list \<times> int list) option" where
  "split_small I V k stop h =
     (if k < stop then do {
        a \<leftarrow> idx I k;
        x \<leftarrow> idx V (a + h);
        (I1, j, x1) \<leftarrow> split_min I V k stop h 1 1 x;
        V1 \<leftarrow> set_rank I1 V k j 0;
        I2 \<leftarrow> (if j = 1 then upd I1 k (- 1) else Some I1);
        split_small I2 V1 (k + j) stop h
      } else Some (I, V))"
  by pat_completeness auto
termination
proof (relation "measure (\<lambda>(I, V, k, stop, h). nat (stop - k))", goal_cases)
  case 1
  then show ?case by simp
next
  case (2 I V k stop h a x r I1 r2 j x1 V1 I2)
  then have "1 \<le> j" using split_min_j_pos[of I V k stop h 1 1 x I1 j x1] by simp
  with 2 show ?case by simp
qed

declare split_small.simps [simp del]

text \<open>The counting loop of the quicksort branch:
  \<open>for i = start; i < start+length; i++\<close>, counting the keys below and equal to the pivot.\<close>

function split_count :: "int list \<Rightarrow> int list \<Rightarrow> int \<Rightarrow> int \<Rightarrow> int \<Rightarrow> int \<Rightarrow> int \<Rightarrow> int
    \<Rightarrow> (int \<times> int) option" where
  "split_count I V h x i stop jj kk =
     (if i < stop then do {
        a \<leftarrow> idx I i;
        key \<leftarrow> idx V (a + h);
        split_count I V h x (i + 1) stop
          (if key < x then jj + 1 else jj) (if key = x then kk + 1 else kk)
      } else Some (jj, kk))"
  by pat_completeness auto
termination
  by (relation "measure (\<lambda>(I, V, h, x, i, stop, jj, kk). nat (stop - i))") auto

declare split_count.simps [simp del]

text \<open>The first partition loop, \<open>for i < jj\<close>. It ends because every step either advances
  \<open>i\<close> or performs a swap at \<open>jj+j\<close> or \<open>kk+k\<close>, which panics beyond the end of \<open>I\<close>.\<close>

function split_part1 :: "int list \<Rightarrow> int list \<Rightarrow> int \<Rightarrow> int \<Rightarrow> int \<Rightarrow> int \<Rightarrow> int \<Rightarrow> int \<Rightarrow> int
    \<Rightarrow> (int list \<times> int \<times> int) option" where
  "split_part1 I V h x jj kk i j k =
     (if i < jj then do {
        a \<leftarrow> idx I i;
        key \<leftarrow> idx V (a + h);
        if key < x then split_part1 I V h x jj kk (i + 1) j k
        else if key = x then do {
          I1 \<leftarrow> swap I i (jj + j);
          split_part1 I1 V h x jj kk i (j + 1) k
        } else do {
          I1 \<leftarrow> swap I i (kk + k);
          split_part1 I1 V h x jj kk i j (k + 1)
        }
      } else Some (I, j, k))"
  by pat_completeness auto
termination
proof (relation "measure (\<lambda>(I, V, h, x, jj, kk, i, j, k).
    nat (jj - i) + nat (int (length I) - (jj + j)) + nat (int (length I) - (kk + k)))", goal_cases)
  case 1
  show ?case by simp
next
  case (2 I V h x jj kk i j k a key)
  then show ?case by simp
next
  case (3 I V h x jj kk i j k a key I1)
  from 3 have "length I1 = length I" "jj + j < int (length I)"
    using length_swap swap_in_range by blast+
  then show ?case by simp
next
  case (4 I V h x jj kk i j k a key I1)
  from 4 have "length I1 = length I" "kk + k < int (length I)"
    using length_swap swap_in_range by blast+
  then show ?case by simp
qed

declare split_part1.simps [simp del]

text \<open>The second partition loop, \<open>for jj+j < kk\<close>.\<close>

function split_part2 :: "int list \<Rightarrow> int list \<Rightarrow> int \<Rightarrow> int \<Rightarrow> int \<Rightarrow> int \<Rightarrow> int \<Rightarrow> int
    \<Rightarrow> int list option" where
  "split_part2 I V h x jj kk j k =
     (if jj + j < kk then do {
        a \<leftarrow> idx I (jj + j);
        key \<leftarrow> idx V (a + h);
        if key = x then split_part2 I V h x jj kk (j + 1) k
        else do {
          I1 \<leftarrow> swap I (jj + j) (kk + k);
          split_part2 I1 V h x jj kk j (k + 1)
        }
      } else Some I)"
  by pat_completeness auto
termination
proof (relation "measure (\<lambda>(I, V, h, x, jj, kk, j, k).
    nat (kk - (jj + j)) + nat (int (length I) - (kk + k)))", goal_cases)
  case 1
  show ?case by simp
next
  case (2 I V h x jj kk j k a key)
  then show ?case by simp
next
  case (3 I V h x jj kk j k a key I1)
  from 3 have "length I1 = length I" "kk + k < int (length I)"
    using length_swap swap_in_range by blast+
  then show ?case by simp
qed

declare split_part2.simps [simp del]

lemma split_count_bounds:
  "split_count I V h x i stop jj kk = Some (jj', kk') \<Longrightarrow> i \<le> stop \<Longrightarrow>
     jj \<le> jj' \<and> kk \<le> kk' \<and> (jj' - jj) + (kk' - kk) \<le> stop - i"
proof (induction "nat (stop - i)" arbitrary: i jj kk)
  case 0
  then show ?case by (subst (asm) split_count.simps) simp
next
  case (Suc n)
  from Suc.hyps(2) have lt: "i < stop" and n: "n = nat (stop - (i + 1))" by auto
  from Suc.prems(1) lt obtain a key where
    rec: "split_count I V h x (i + 1) stop (if key < x then jj + 1 else jj)
            (if key = x then kk + 1 else kk) = Some (jj', kk')"
    by (subst (asm) split_count.simps) (auto split: Option.bind_splits)
  from lt have "i + 1 \<le> stop" by simp
  from Suc.hyps(1)[OF n rec this] show ?case by (auto split: if_splits)
qed

lemma split_count_pivot:
  "split_count I V h x i stop jj kk = Some (jj', kk') \<Longrightarrow> i \<le> m \<Longrightarrow> m < stop \<Longrightarrow>
     idx I m = Some a \<Longrightarrow> idx V (a + h) = Some x \<Longrightarrow> kk < kk'"
proof (induction "nat (stop - i)" arbitrary: i jj kk)
  case 0
  then show ?case by simp
next
  case (Suc n)
  from Suc.prems have lt: "i < stop" by simp
  from Suc.hyps(2) have n: "n = nat (stop - (i + 1))" by auto
  from Suc.prems(1) lt obtain b key where b: "idx I i = Some b" and key: "idx V (b + h) = Some key"
    and rec: "split_count I V h x (i + 1) stop (if key < x then jj + 1 else jj)
            (if key = x then kk + 1 else kk) = Some (jj', kk')"
    by (subst (asm) split_count.simps) (auto split: Option.bind_splits)
  show ?case
  proof (cases "i = m")
    case True
    with b key Suc.prems have "key = x" by simp
    moreover from lt have "i + 1 \<le> stop" by simp
    ultimately show ?thesis using split_count_bounds[OF rec] by simp
  next
    case False
    with Suc.prems have "i + 1 \<le> m" by simp
    from Suc.hyps(1)[OF n rec this Suc.prems(3,4,5)] show ?thesis by (simp split: if_splits)
  qed
qed

text \<open>
  \<open>split(I, V, start, length, h)\<close>. In the quicksort branch \<open>length \<ge> 16\<close>, so Go's truncating
  \<open>length/2\<close> is \<open>length div 2\<close>. The function returns the two arrays it mutates.
\<close>

function split :: "int list \<Rightarrow> int list \<Rightarrow> int \<Rightarrow> int \<Rightarrow> int \<Rightarrow> (int list \<times> int list) option" where
  "split I V start len h =
     (if len < 16 then split_small I V start (start + len) h
      else do {
        m \<leftarrow> idx I (start + len div 2);
        x \<leftarrow> idx V (m + h);
        (jj0, kk0) \<leftarrow> split_count I V h x start (start + len) 0 0;
        (I1, j, k) \<leftarrow> split_part1 I V h x (jj0 + start) (kk0 + (jj0 + start)) start 0 0;
        I2 \<leftarrow> split_part2 I1 V h x (jj0 + start) (kk0 + (jj0 + start)) j k;
        (I3, V3) \<leftarrow> (if jj0 + start > start then split I2 V start (jj0 + start - start) h
                      else Some (I2, V));
        V4 \<leftarrow> set_rank I3 V3 (jj0 + start) (kk0 + (jj0 + start) - (jj0 + start)) 0;
        I4 \<leftarrow> (if jj0 + start = kk0 + (jj0 + start) - 1 then upd I3 (jj0 + start) (- 1)
               else Some I3);
        if start + len > kk0 + (jj0 + start)
        then split I4 V4 (kk0 + (jj0 + start)) (start + len - (kk0 + (jj0 + start))) h
        else Some (I4, V4)
      })"
  by pat_completeness auto
termination
proof (relation "measure (\<lambda>(I, V, start, len, h). nat len)", goal_cases)
  case 1
  show ?case by simp
next
  case (2 I V start len h m x r jj0 kk0)
  from 2(1) have "start \<le> start + len div 2" "start + len div 2 < start + len" "start \<le> start + len"
    by auto
  moreover from 2 have sc: "split_count I V h x start (start + len) 0 0 = Some (jj0, kk0)"
    and m: "idx I (start + len div 2) = Some m" "idx V (m + h) = Some x" by simp_all
  ultimately have "0 < kk0" "0 \<le> jj0" "jj0 + kk0 \<le> len"
    using split_count_pivot[OF sc _ _ m] split_count_bounds[OF sc] by auto
  with 2(1) show ?case by simp
next
  case (3 I V start len h m x r jj0 kk0)
  from 3(1) have "start \<le> start + len div 2" "start + len div 2 < start + len" "start \<le> start + len"
    by auto
  moreover from 3 have sc: "split_count I V h x start (start + len) 0 0 = Some (jj0, kk0)"
    and m: "idx I (start + len div 2) = Some m" "idx V (m + h) = Some x" by simp_all
  ultimately have "0 < kk0" "0 \<le> jj0" "jj0 + kk0 \<le> len"
    using split_count_pivot[OF sc _ _ m] split_count_bounds[OF sc] by auto
  with 3(1) show ?case by simp
qed

declare split.simps [simp del]

section \<open>Suffix sorting (\<open>qsufsort\<close>)\<close>

text \<open>
  The bucket phase. \<open>buckets\<close> is a \<open>[256]int\<close> indexed by a byte, so these accesses cannot
  leave the array; the writes to \<open>I\<close> and \<open>V\<close> are checked like every other slice access.
\<close>

definition bucket_count :: "byte list \<Rightarrow> int list" where
  "bucket_count obuf = fold (\<lambda>c b. b[unat c := b ! unat c + 1]) obuf (replicate 256 0)"

text \<open>\<open>for i = 1; i < 256; i++ { buckets[i] += buckets[i-1] }\<close>\<close>

function bucket_sums :: "int list \<Rightarrow> nat \<Rightarrow> int list" where
  "bucket_sums b i = (if i < 256 then bucket_sums (b[i := b ! i + b ! (i - 1)]) (i + 1) else b)"
  by pat_completeness auto
termination
  by (relation "measure (\<lambda>(b, i). 256 - i)") auto

declare bucket_sums.simps [simp del]

text \<open>\<open>copy(buckets[1:], buckets[:]); buckets[0] = 0\<close>\<close>

definition bucket_shift :: "int list \<Rightarrow> int list" where
  "bucket_shift b = 0 # take 255 b"

text \<open>\<open>for i, c := range obuf { buckets[c]++; I[buckets[c]] = i }\<close>\<close>

fun bucket_place :: "byte list \<Rightarrow> int \<Rightarrow> int list \<Rightarrow> int list \<Rightarrow> (int list \<times> int list) option" where
  "bucket_place [] i b I = Some (b, I)"
| "bucket_place (c # cs) i b I = do {
     let b1 = b[unat c := b ! unat c + 1];
     I1 \<leftarrow> upd I (b1 ! unat c) i;
     bucket_place cs (i + 1) b1 I1
   }"

text \<open>\<open>for i, c := range obuf { V[i] = buckets[c] }\<close>\<close>

fun rank_init :: "byte list \<Rightarrow> int \<Rightarrow> int list \<Rightarrow> int list \<Rightarrow> int list option" where
  "rank_init [] i b V = Some V"
| "rank_init (c # cs) i b V = do {
     V1 \<leftarrow> upd V i (b ! unat c);
     rank_init cs (i + 1) b V1
   }"

text \<open>\<open>for i = 1; i < 256; i++ { if buckets[i] == buckets[i-1]+1 { I[buckets[i]] = -1 } }\<close>\<close>

function mark_single :: "int list \<Rightarrow> nat \<Rightarrow> int list \<Rightarrow> int list option" where
  "mark_single b i I =
     (if i < 256 then do {
        I1 \<leftarrow> (if b ! i = b ! (i - 1) + 1 then upd I (b ! i) (- 1) else Some I);
        mark_single b (i + 1) I1
      } else Some I)"
  by pat_completeness auto
termination
  by (relation "measure (\<lambda>(b, i, I). 256 - i)") auto

declare mark_single.simps [simp del]

definition qsufsort_init :: "byte list \<Rightarrow> (int list \<times> int list) option" where
  "qsufsort_init obuf = do {
     let n = int (length obuf);
     let I = replicate (length obuf + 1) 0;
     let V = replicate (length obuf + 1) 0;
     let b = bucket_shift (bucket_sums (bucket_count obuf) 1);
     (b1, I1) \<leftarrow> bucket_place obuf 0 b I;
     I2 \<leftarrow> upd I1 0 n;
     V1 \<leftarrow> rank_init obuf 0 b1 V;
     V2 \<leftarrow> upd V1 n 0;
     I3 \<leftarrow> mark_single b1 1 I2;
     I4 \<leftarrow> upd I3 0 (- 1);
     Some (I4, V2)
   }"

text \<open>
  One group of the scan \<open>for i = 0; i < len(obuf)+1;\<close>, in the branch \<open>I[i] \<ge> 0\<close>: close the
  pending run of sorted entries, then sort the group that starts at \<open>i\<close>. The result is the
  two arrays and the length \<open>n\<close> of the group.
\<close>

definition pass_group :: "int list \<Rightarrow> int list \<Rightarrow> int \<Rightarrow> int \<Rightarrow> int
    \<Rightarrow> (int list \<times> int list \<times> int) option" where
  "pass_group I V h i n = do {
     I1 \<leftarrow> (if n \<noteq> 0 then upd I (i - n) (- n) else Some I);
     a \<leftarrow> idx I1 i;
     r \<leftarrow> idx V a;
     (I2, V2) \<leftarrow> split I1 V i (r + 1 - i) h;
     Some (I2, V2, r + 1 - i)
   }"

text \<open>
  The scan itself. With arbitrary arrays it need not end (a group of length 0 repeats for
  ever), so the outer \<open>option\<close> is \<open>None\<close> when the loop does not return; the inner one
  is \<open>None\<close> when it panics. On return it yields \<open>I\<close>, \<open>V\<close>, \<open>i\<close> and \<open>n\<close>.
\<close>

partial_function (option) qsufsort_pass :: "int list \<Rightarrow> int list \<Rightarrow> int \<Rightarrow> int \<Rightarrow> int \<Rightarrow> int
    \<Rightarrow> (int list \<times> int list \<times> int \<times> int) option option" where
  "qsufsort_pass I V h len i n =
     (if i < len + 1 then
        (case idx I i of
           None \<Rightarrow> Some None
         | Some a \<Rightarrow>
             if a < 0 then qsufsort_pass I V h len (i - a) (n - a)
             else (case pass_group I V h i n of
                     None \<Rightarrow> Some None
                   | Some (I2, V2, m) \<Rightarrow> qsufsort_pass I2 V2 h len (i + m) 0))
      else Some (Some (I, V, i, n)))"

declare qsufsort_pass.simps [code]

text \<open>The loop \<open>for h = 1; I[0] != -(len(obuf) + 1); h += h\<close>.\<close>

partial_function (option) qsufsort_loop :: "int list \<Rightarrow> int list \<Rightarrow> int \<Rightarrow> int
    \<Rightarrow> (int list \<times> int list) option option" where
  "qsufsort_loop I V h len =
     (case idx I 0 of
        None \<Rightarrow> Some None
      | Some a \<Rightarrow>
          if a \<noteq> - (len + 1) then
            (case qsufsort_pass I V h len 0 0 of
               None \<Rightarrow> None
             | Some None \<Rightarrow> Some None
             | Some (Some (I1, V1, i, n)) \<Rightarrow>
                 (case (if n \<noteq> 0 then upd I1 (i - n) (- n) else Some I1) of
                    None \<Rightarrow> Some None
                  | Some I2 \<Rightarrow> qsufsort_loop I2 V1 (h + h) len))
          else Some (Some (I, V)))"

declare qsufsort_loop.simps [code]

text \<open>\<open>for i = 0; i < len(obuf)+1; i++ { I[V[i]] = i }\<close>\<close>

function invert_rank :: "int list \<Rightarrow> int list \<Rightarrow> int \<Rightarrow> int \<Rightarrow> int list option" where
  "invert_rank I V len i =
     (if i < len + 1 then do {
        r \<leftarrow> idx V i;
        I1 \<leftarrow> upd I r i;
        invert_rank I1 V len (i + 1)
      } else Some I)"
  by pat_completeness auto
termination
  by (relation "measure (\<lambda>(I, V, len, i). nat (len + 1 - i))") auto

declare invert_rank.simps [simp del]

definition qsufsort :: "byte list \<Rightarrow> int list option option" where
  "qsufsort obuf =
     (case qsufsort_init obuf of
        None \<Rightarrow> Some None
      | Some (I, V) \<Rightarrow>
          (case qsufsort_loop I V 1 (int (length obuf)) of
             None \<Rightarrow> None
           | Some None \<Rightarrow> Some None
           | Some (Some (I1, V1)) \<Rightarrow> Some (invert_rank I1 V1 (int (length obuf)) 0)))"

section \<open>Searching the suffix array\<close>

text \<open>\<open>matchlen(a, b)\<close>: the number of leading bytes \<open>a\<close> and \<open>b\<close> have in common.\<close>

fun matchlen :: "byte list \<Rightarrow> byte list \<Rightarrow> int" where
  "matchlen (a # as) (b # bs) = (if a = b then 1 + matchlen as bs else 0)"
| "matchlen _ _ = 0"

text \<open>\<open>bytes.Compare\<close> of Go's standard library: \<open>-1\<close>, \<open>0\<close> or \<open>1\<close> by the lexicographic
  order of the two slices, bytes compared as unsigned values.\<close>

fun bytes_compare :: "byte list \<Rightarrow> byte list \<Rightarrow> int" where
  "bytes_compare [] [] = 0"
| "bytes_compare [] (b # bs) = - 1"
| "bytes_compare (a # as) [] = 1"
| "bytes_compare (a # as) (b # bs) =
     (if a < b then - 1 else if b < a then 1 else bytes_compare as bs)"

text \<open>\<open>search(I, obuf, nbuf, st, en)\<close>. In the recursive branch \<open>en - st \<ge> 2\<close>, so Go's
  truncating division is \<open>div\<close>.\<close>

function search :: "int list \<Rightarrow> byte list \<Rightarrow> byte list \<Rightarrow> int \<Rightarrow> int \<Rightarrow> (int \<times> int) option" where
  "search I obuf nbuf st en =
     (if en - st < 2 then do {
        a \<leftarrow> idx I st;
        oa \<leftarrow> slice_from obuf a;
        b \<leftarrow> idx I en;
        ob \<leftarrow> slice_from obuf b;
        if matchlen oa nbuf > matchlen ob nbuf then Some (a, matchlen oa nbuf)
        else Some (b, matchlen ob nbuf)
      } else do {
        a \<leftarrow> idx I (st + (en - st) div 2);
        oa \<leftarrow> slice_from obuf a;
        if bytes_compare oa nbuf < 0 then search I obuf nbuf (st + (en - st) div 2) en
        else search I obuf nbuf st (st + (en - st) div 2)
      })"
  by pat_completeness auto
termination
  by (relation "measure (\<lambda>(I, obuf, nbuf, st, en). nat (en - st))") auto

declare search.simps [simp del]

section \<open>Messages and the message stream\<close>

text \<open>
  The messages of the two packages. \<open>BsdiffControl\<close> (\<open>Add\<close>, \<open>Copy\<close>, \<open>Seek\<close> are
  \<open>int64\<close> counts), \<open>BsdiffDiff\<close> and \<open>BsdiffExtra\<close> are what \<open>BSDiff\<close> writes and
  \<open>BSPatch\<close> reads. \<open>SyncHeader\<close>, \<open>SyncOp\<close>, \<open>BsdiffHeader\<close> and \<open>Control\<close> (whose
  \<open>Add\<close> and \<open>Copy\<close> are byte strings) are what the patch analysis reads.
\<close>

record BsdiffControl =
  Add :: int
  Copy :: int
  Seek :: int

datatype SyncHeader_Type = RSYNC | BSDIFF | OtherSeries int

record SyncHeader =
  sh_Type :: SyncHeader_Type
  sh_FileIndex :: int

datatype SyncOp_Type = BLOCK_RANGE | DATA | HEY_YOU_DID_IT | OtherOp int

record SyncOp =
  op_Type :: SyncOp_Type
  op_FileIndex :: int
  op_BlockIndex :: int
  op_BlockSpan :: int
  op_Data :: "byte list"

record Control =
  ctl_Add :: "byte list"
  ctl_Copy :: "byte list"
  ctl_Seek :: int
  ctl_Eof :: bool

datatype msg =
    MBsdiffControl BsdiffControl
  | MBsdiffDiff "byte list"
  | MBsdiffExtra "byte list"
  | MSyncHeader SyncHeader
  | MSyncOp SyncOp
  | MBsdiffHeader int
  | MControl Control

datatype error = Panic | ErrCorrupt | ErrRead | ErrWrite | ErrMalformed | ErrUnsupported

text \<open>
  Modelled from the spec: the message writer \<open>wire.WriteContext\<close> is not part of the sources.
  Following section 6 of the specification, \<open>WriteMessage\<close> frames exactly one record per
  call; the model appends it to the list of messages sent. A writer may fail: \<open>limit\<close> is the
  number of messages it still accepts, \<open>None\<close> for a writer that never fails.
\<close>

record write_ctx =
  sent :: "msg list"
  limit :: "nat option"

definition WriteMessage :: "write_ctx \<Rightarrow> msg \<Rightarrow> error + write_ctx" where
  "WriteMessage w m =
     (case limit w of
        None \<Rightarrow> Inr (w\<lparr>sent := sent w @ [m]\<rparr>)
      | Some 0 \<Rightarrow> Inl ErrWrite
      | Some (Suc k) \<Rightarrow> Inr (w\<lparr>sent := sent w @ [m], limit := Some k\<rparr>))"

section \<open>The diff (\<open>BSDiff\<close>)\<close>

text \<open>The guard \<open>a < len(obuf) && obuf[a] == nbuf[b]\<close>; the second operand is evaluated
  only when the first holds.\<close>

definition eq_at :: "byte list \<Rightarrow> byte list \<Rightarrow> int \<Rightarrow> int \<Rightarrow> bool option" where
  "eq_at obuf nbuf a b =
     (if a < int (length obuf) then do {
        x \<leftarrow> idx obuf a;
        y \<leftarrow> idx nbuf b;
        Some (x = y)
      } else Some False)"

text \<open>\<open>for ; scsc < scan+length; scsc++\<close>, which raises \<open>oldscore\<close>.\<close>

function score_loop :: "byte list \<Rightarrow> byte list \<Rightarrow> int \<Rightarrow> int \<Rightarrow> int \<Rightarrow> int \<Rightarrow> (int \<times> int) option" where
  "score_loop obuf nbuf lastoffset stop scsc oldscore =
     (if scsc < stop then do {
        e \<leftarrow> eq_at obuf nbuf (scsc + lastoffset) scsc;
        score_loop obuf nbuf lastoffset stop (scsc + 1) (if e then oldscore + 1 else oldscore)
      } else Some (scsc, oldscore))"
  by pat_completeness auto
termination
  by (relation "measure (\<lambda>(obuf, nbuf, lastoffset, stop, scsc, oldscore). nat (stop - scsc))") auto

declare score_loop.simps [simp del]

text \<open>\<open>for scsc := scan; scan < len(nbuf); scan++\<close>: look for the next match worth taking.
  The result is \<open>scan\<close>, \<open>pos\<close>, \<open>length\<close> and \<open>oldscore\<close> when the loop is left.\<close>

function scan_loop :: "int list \<Rightarrow> byte list \<Rightarrow> byte list \<Rightarrow> int \<Rightarrow> int \<Rightarrow> int \<Rightarrow> int \<Rightarrow> int \<Rightarrow> int
    \<Rightarrow> (int \<times> int \<times> int \<times> int) option" where
  "scan_loop I obuf nbuf lastoffset scan pos length_m scsc oldscore =
     (if scan < int (length nbuf) then do {
        nb \<leftarrow> slice_from nbuf scan;
        (pos1, len1) \<leftarrow> search I obuf nb 0 (int (length obuf));
        (scsc1, os1) \<leftarrow> score_loop obuf nbuf lastoffset (scan + len1) scsc oldscore;
        if (len1 = os1 \<and> len1 \<noteq> 0) \<or> len1 > os1 + 8 then Some (scan, pos1, len1, os1)
        else do {
          e \<leftarrow> eq_at obuf nbuf (scan + lastoffset) scan;
          scan_loop I obuf nbuf lastoffset (scan + 1) pos1 len1 scsc1 (if e then os1 - 1 else os1)
        }
      } else Some (scan, pos, length_m, oldscore))"
  by pat_completeness auto
termination
  by (relation "measure (\<lambda>(I, obuf, nbuf, lastoffset, scan, pos, length_m, scsc, oldscore).
        nat (int (length nbuf) - scan))") auto

declare scan_loop.simps [simp del]

text \<open>The forward extension:
  \<open>for i := 0; lastscan+i < scan && lastpos+i < len(obuf);\<close>, result \<open>lenf\<close>.\<close>

function fwd_ext :: "byte list \<Rightarrow> byte list \<Rightarrow> int \<Rightarrow> int \<Rightarrow> int \<Rightarrow> int \<Rightarrow> int \<Rightarrow> int \<Rightarrow> int
    \<Rightarrow> int option" where
  "fwd_ext obuf nbuf lastscan lastpos scan i s Sf lenf =
     (if lastscan + i < scan \<and> lastpos + i < int (length obuf) then do {
        x \<leftarrow> idx obuf (lastpos + i);
        y \<leftarrow> idx nbuf (lastscan + i);
        if (if x = y then s + 1 else s) * 2 - (i + 1) > Sf * 2 - lenf
        then fwd_ext obuf nbuf lastscan lastpos scan (i + 1) (if x = y then s + 1 else s)
               (if x = y then s + 1 else s) (i + 1)
        else fwd_ext obuf nbuf lastscan lastpos scan (i + 1) (if x = y then s + 1 else s) Sf lenf
      } else Some lenf)"
  by pat_completeness auto
termination
  by (relation "measure (\<lambda>(obuf, nbuf, lastscan, lastpos, scan, i, s, Sf, lenf).
        nat (scan - (lastscan + i)))") auto

declare fwd_ext.simps [simp del]

text \<open>The backward extension:
  \<open>for i := 1; (scan >= lastscan+i) && (pos >= i); i++\<close>, result \<open>lenb\<close>.\<close>

function bwd_ext :: "byte list \<Rightarrow> byte list \<Rightarrow> int \<Rightarrow> int \<Rightarrow> int \<Rightarrow> int \<Rightarrow> int \<Rightarrow> int \<Rightarrow> int
    \<Rightarrow> int option" where
  "bwd_ext obuf nbuf lastscan scan pos i s Sb lenb =
     (if scan \<ge> lastscan + i \<and> pos \<ge> i then do {
        x \<leftarrow> idx obuf (pos - i);
        y \<leftarrow> idx nbuf (scan - i);
        if (if x = y then s + 1 else s) * 2 - i > Sb * 2 - lenb
        then bwd_ext obuf nbuf lastscan scan pos (i + 1) (if x = y then s + 1 else s)
               (if x = y then s + 1 else s) i
        else bwd_ext obuf nbuf lastscan scan pos (i + 1) (if x = y then s + 1 else s) Sb lenb
      } else Some lenb)"
  by pat_completeness auto
termination
  by (relation "measure (\<lambda>(obuf, nbuf, lastscan, scan, pos, i, s, Sb, lenb). nat (pos + 1 - i))") auto

declare bwd_ext.simps [simp del]

text \<open>The overlap loop \<open>for i := 0; i < overlap; i++\<close>, result \<open>lens\<close>. Its arguments
  \<open>fnew\<close>, \<open>fol\<close>, \<open>bnew\<close>, \<open>bol\<close> are \<open>lastscan+lenf-overlap\<close>, \<open>lastpos+lenf-overlap\<close>,
  \<open>scan-lenb\<close> and \<open>pos-lenb\<close>.\<close>

function overlap_loop :: "byte list \<Rightarrow> byte list \<Rightarrow> int \<Rightarrow> int \<Rightarrow> int \<Rightarrow> int \<Rightarrow> int \<Rightarrow> int \<Rightarrow> int
    \<Rightarrow> int \<Rightarrow> int \<Rightarrow> int option" where
  "overlap_loop obuf nbuf fnew fol bnew bol overlap i s Ss lens =
     (if i < overlap then do {
        y1 \<leftarrow> idx nbuf (fnew + i);
        x1 \<leftarrow> idx obuf (fol + i);
        y2 \<leftarrow> idx nbuf (bnew + i);
        x2 \<leftarrow> idx obuf (bol + i);
        if (if y2 = x2 then (if y1 = x1 then s + 1 else s) - 1 else (if y1 = x1 then s + 1 else s)) > Ss
        then overlap_loop obuf nbuf fnew fol bnew bol overlap (i + 1)
               (if y2 = x2 then (if y1 = x1 then s + 1 else s) - 1 else (if y1 = x1 then s + 1 else s))
               (if y2 = x2 then (if y1 = x1 then s + 1 else s) - 1 else (if y1 = x1 then s + 1 else s))
               (i + 1)
        else overlap_loop obuf nbuf fnew fol bnew bol overlap (i + 1)
               (if y2 = x2 then (if y1 = x1 then s + 1 else s) - 1 else (if y1 = x1 then s + 1 else s))
               Ss lens
      } else Some lens)"
  by pat_completeness auto
termination
  by (relation "measure (\<lambda>(obuf, nbuf, fbase, fold, bbase, bold, overlap, i, s, Ss, lens).
        nat (overlap - i))") auto

declare overlap_loop.simps [simp del]

text \<open>\<open>for i := 0; i < lenf; i++ { db[dblen+i] = nbuf[lastscan+i] - obuf[lastpos+i] }\<close>\<close>

function fill_db :: "byte list \<Rightarrow> byte list \<Rightarrow> int \<Rightarrow> int \<Rightarrow> int \<Rightarrow> int \<Rightarrow> int \<Rightarrow> byte list
    \<Rightarrow> byte list option" where
  "fill_db obuf nbuf lastscan lastpos lenf dblen i db =
     (if i < lenf then do {
        y \<leftarrow> idx nbuf (lastscan + i);
        x \<leftarrow> idx obuf (lastpos + i);
        db1 \<leftarrow> upd db (dblen + i) (y - x);
        fill_db obuf nbuf lastscan lastpos lenf dblen (i + 1) db1
      } else Some db)"
  by pat_completeness auto
termination
  by (relation "measure (\<lambda>(obuf, nbuf, lastscan, lastpos, lenf, dblen, i, db). nat (lenf - i))") auto

declare fill_db.simps [simp del]

text \<open>\<open>for i := 0; i < cnt; i++ { eb[eblen+i] = nbuf[from+i] }\<close> with
  \<open>cnt = (scan-lenb)-(lastscan+lenf)\<close> and \<open>from = lastscan+lenf\<close>.\<close>

function fill_eb :: "byte list \<Rightarrow> int \<Rightarrow> int \<Rightarrow> int \<Rightarrow> int \<Rightarrow> byte list \<Rightarrow> byte list option" where
  "fill_eb nbuf from cnt eblen i eb =
     (if i < cnt then do {
        y \<leftarrow> idx nbuf (from + i);
        eb1 \<leftarrow> upd eb (eblen + i) y;
        fill_eb nbuf from cnt eblen (i + 1) eb1
      } else Some eb)"
  by pat_completeness auto
termination
  by (relation "measure (\<lambda>(nbuf, from, cnt, eblen, i, eb). nat (cnt - i))") auto

declare fill_eb.simps [simp del]

text \<open>The variables of \<open>BSDiff\<close> that live across iterations of its main loop.\<close>

record diff_state =
  ds_scan :: int
  ds_pos :: int
  ds_length :: int
  ds_lastscan :: int
  ds_lastpos :: int
  ds_lastoffset :: int
  ds_db :: "byte list"
  ds_eb :: "byte list"
  ds_dblen :: int
  ds_eblen :: int

text \<open>
  The block under \<open>if length != oldscore || scan == len(nbuf)\<close>, entered with the values
  \<open>scan\<close>, \<open>pos\<close> the scan has reached: extensions, overlap, the two data buffers, and the
  control message to write. The state returned is the one after the block.
\<close>

definition emit_step :: "byte list \<Rightarrow> byte list \<Rightarrow> diff_state \<Rightarrow> int \<Rightarrow> int \<Rightarrow> int
    \<Rightarrow> (diff_state \<times> BsdiffControl) option" where
  "emit_step obuf nbuf s scan pos length_m = do {
     lenf0 \<leftarrow> fwd_ext obuf nbuf (ds_lastscan s) (ds_lastpos s) scan 0 0 0 0;
     lenb0 \<leftarrow> (if scan < int (length nbuf)
               then bwd_ext obuf nbuf (ds_lastscan s) scan pos 1 0 0 0 else Some 0);
     (lenf, lenb) \<leftarrow>
       (if ds_lastscan s + lenf0 > scan - lenb0 then do {
          lens \<leftarrow> overlap_loop obuf nbuf
                    (ds_lastscan s + lenf0 - ((ds_lastscan s + lenf0) - (scan - lenb0)))
                    (ds_lastpos s + lenf0 - ((ds_lastscan s + lenf0) - (scan - lenb0)))
                    (scan - lenb0) (pos - lenb0)
                    ((ds_lastscan s + lenf0) - (scan - lenb0)) 0 0 0 0;
          Some (lenf0 + (lens - ((ds_lastscan s + lenf0) - (scan - lenb0))), lenb0 - lens)
        } else Some (lenf0, lenb0));
     db1 \<leftarrow> fill_db obuf nbuf (ds_lastscan s) (ds_lastpos s) lenf (ds_dblen s) 0 (ds_db s);
     eb1 \<leftarrow> fill_eb nbuf (ds_lastscan s + lenf) ((scan - lenb) - (ds_lastscan s + lenf))
              (ds_eblen s) 0 (ds_eb s);
     Some (\<lparr>ds_scan = scan, ds_pos = pos, ds_length = length_m,
             ds_lastscan = scan - lenb, ds_lastpos = pos - lenb, ds_lastoffset = pos - scan,
             ds_db = db1, ds_eb = eb1,
             ds_dblen = ds_dblen s + lenf,
             ds_eblen = ds_eblen s + ((scan - lenb) - (ds_lastscan s + lenf))\<rparr>,
           \<lparr>Add = lenf, Copy = (scan - lenb) - (ds_lastscan s + lenf),
             Seek = (pos - lenb) - (ds_lastpos s + lenf)\<rparr>)
   }"

text \<open>One iteration of \<open>for scan < len(nbuf)\<close>, up to the write of the control message,
  which is returned when there is one.\<close>

definition bsdiff_iter :: "int list \<Rightarrow> byte list \<Rightarrow> byte list \<Rightarrow> diff_state
    \<Rightarrow> (diff_state \<times> BsdiffControl option) option" where
  "bsdiff_iter I obuf nbuf s = do {
     (scan, pos, length_m, oldscore) \<leftarrow>
        scan_loop I obuf nbuf (ds_lastoffset s) (ds_scan s + ds_length s) (ds_pos s) (ds_length s)
          (ds_scan s + ds_length s) 0;
     if length_m \<noteq> oldscore \<or> scan = int (length nbuf) then do {
       (s1, c) \<leftarrow> emit_step obuf nbuf s scan pos length_m;
       Some (s1, Some c)
     } else Some (s\<lparr>ds_scan := scan, ds_pos := pos, ds_length := length_m\<rparr>, None)
   }"

lemma matchlen_bounds: "0 \<le> matchlen a b \<and> matchlen a b \<le> int (length b)"
  by (induction a b rule: matchlen.induct) auto

lemma search_length:
  "search I obuf nb st en = Some (p, l) \<Longrightarrow> 0 \<le> l \<and> l \<le> int (length nb)"
proof (induction I obuf nb st en rule: search.induct)
  case (1 I obuf nbuf st en)
  show ?case
  proof (cases "en - st < 2")
    case True
    with "1.prems" show ?thesis
      by (subst (asm) search.simps)
         (auto split: Option.bind_splits if_splits simp: matchlen_bounds)
  next
    case False
    with "1.prems" obtain a oa where a: "idx I (st + (en - st) div 2) = Some a"
      and oa: "slice_from obuf a = Some oa"
      by (subst (asm) search.simps) (auto split: Option.bind_splits)
    show ?thesis
    proof (cases "bytes_compare oa nbuf < 0")
      case True
      with "1.prems" False a oa
      have "search I obuf nbuf (st + (en - st) div 2) en = Some (p, l)"
        by (subst (asm) search.simps) simp
      from "1.IH"(1)[OF False a oa True this] show ?thesis .
    next
      case ge: False
      with "1.prems" False a oa
      have "search I obuf nbuf st (st + (en - st) div 2) = Some (p, l)"
        by (subst (asm) search.simps) simp
      from "1.IH"(2)[OF False a oa ge this] show ?thesis .
    qed
  qed
qed

lemma score_loop_mono:
  "score_loop obuf nbuf lo stop scsc os = Some (scsc1, os1) \<Longrightarrow> os \<le> os1"
proof (induction "nat (stop - scsc)" arbitrary: scsc os)
  case 0
  then show ?case by (subst (asm) score_loop.simps) simp
next
  case (Suc n)
  from Suc.hyps(2) have lt: "scsc < stop" and n: "n = nat (stop - (scsc + 1))" by auto
  from Suc.prems lt obtain e where
    "score_loop obuf nbuf lo stop (scsc + 1) (if e then os + 1 else os) = Some (scsc1, os1)"
    by (subst (asm) score_loop.simps) (auto split: Option.bind_splits)
  from Suc.hyps(1)[OF n this] show ?case by (simp split: if_splits)
qed

lemma scan_loop_result:
  "scan_loop I obuf nbuf lo scan pos len scsc os = Some (scan1, pos1, len1, os1) \<Longrightarrow>
     scan \<le> scan1 \<and>
     (scan1 < int (length nbuf) \<longrightarrow>
        0 \<le> len1 \<and> len1 \<le> int (length nbuf) - scan1 \<and> (scan1 = scan \<and> 0 \<le> os \<longrightarrow> 0 < len1))"
proof (induction "nat (int (length nbuf) - scan)" arbitrary: scan pos len scsc os)
  case 0
  then show ?case by (subst (asm) scan_loop.simps) simp
next
  case (Suc n)
  from Suc.hyps(2) have lt: "scan < int (length nbuf)"
    and n: "n = nat (int (length nbuf) - (scan + 1))" by auto
  from Suc.prems lt obtain nb p l sc1 o1 where nb: "slice_from nbuf scan = Some nb"
    and se: "search I obuf nb 0 (int (length obuf)) = Some (p, l)"
    and sc: "score_loop obuf nbuf lo (scan + l) scsc os = Some (sc1, o1)"
    and rest: "(if (l = o1 \<and> l \<noteq> 0) \<or> l > o1 + 8 then Some (scan, p, l, o1)
        else do {
          e \<leftarrow> eq_at obuf nbuf (scan + lo) scan;
          scan_loop I obuf nbuf lo (scan + 1) p l sc1 (if e then o1 - 1 else o1)
        }) = Some (scan1, pos1, len1, os1)"
    by (subst (asm) scan_loop.simps) (simp add: bind_eq_Some_conv, blast)
  from nb have lnb: "int (length nb) = int (length nbuf) - scan"
    by (auto simp: slice_from_def split: if_splits)
  note sl = search_length[OF se] score_loop_mono[OF sc]
  show ?case
  proof (cases "(l = o1 \<and> l \<noteq> 0) \<or> l > o1 + 8")
    case True
    with rest have "scan1 = scan" "len1 = l" by simp_all
    with True sl lnb show ?thesis by auto
  next
    case False
    with rest obtain e where
      "scan_loop I obuf nbuf lo (scan + 1) p l sc1 (if e then o1 - 1 else o1)
         = Some (scan1, pos1, len1, os1)"
      by (auto simp: bind_eq_Some_conv)
    from Suc.hyps(1)[OF n this] show ?thesis by auto
  qed
qed

definition diff_measure :: "byte list \<Rightarrow> diff_state \<Rightarrow> nat" where
  "diff_measure nbuf s =
     (if ds_scan s < int (length nbuf)
      then 1 + nat (int (length nbuf) - (ds_scan s + ds_length s)) else 0)"

lemma emit_step_scan:
  "emit_step obuf nbuf s scan pos l = Some (s1, c) \<Longrightarrow> ds_scan s1 = scan \<and> ds_length s1 = l"
  by (auto simp: emit_step_def split: Option.bind_splits if_splits)

lemma bsdiff_iter_measure:
  assumes "bsdiff_iter I obuf nbuf s = Some (s1, c)" and "ds_scan s < int (length nbuf)"
  shows "diff_measure nbuf s1 < diff_measure nbuf s"
proof -
  from assms(1) obtain scan pos l os where
    sl: "scan_loop I obuf nbuf (ds_lastoffset s) (ds_scan s + ds_length s) (ds_pos s) (ds_length s)
          (ds_scan s + ds_length s) 0 = Some (scan, pos, l, os)"
    and s1: "ds_scan s1 = scan" "ds_length s1 = l"
    by (fastforce simp: bsdiff_iter_def split: Option.bind_splits if_splits dest: emit_step_scan)
  from scan_loop_result[OF sl] s1 assms(2) show ?thesis
    by (auto simp: diff_measure_def)
qed

text \<open>The loop \<open>for scan < len(nbuf)\<close> with the write of each control message.\<close>

function bsdiff_loop :: "int list \<Rightarrow> byte list \<Rightarrow> byte list \<Rightarrow> diff_state \<Rightarrow> write_ctx
    \<Rightarrow> error + (diff_state \<times> write_ctx)" where
  "bsdiff_loop I obuf nbuf s w =
     (if ds_scan s < int (length nbuf) then
        (case bsdiff_iter I obuf nbuf s of
           None \<Rightarrow> Inl Panic
         | Some (s1, None) \<Rightarrow> bsdiff_loop I obuf nbuf s1 w
         | Some (s1, Some c) \<Rightarrow>
             (case WriteMessage w (MBsdiffControl c) of
                Inl e \<Rightarrow> Inl e
              | Inr w1 \<Rightarrow> bsdiff_loop I obuf nbuf s1 w1))
      else Inr (s, w))"
  by pat_completeness auto
termination
  by (relation "measure (\<lambda>(I, obuf, nbuf, s, w). diff_measure nbuf s)")
     (auto simp: bsdiff_iter_measure)

declare bsdiff_loop.simps [simp del]

text \<open>
  \<open>BSDiff\<close> after the suffix array is built: the main loop from the zero state (the two
  data buffers are \<open>make([]byte, len(nbuf))\<close>), then the sentinel control message
  (\<open>Reset\<close> and \<open>Add = -1\<close>), then \<open>db[:dblen]\<close> and \<open>eb[:eblen]\<close>.
\<close>

definition diff_init :: "byte list \<Rightarrow> diff_state" where
  "diff_init nbuf = \<lparr>ds_scan = 0, ds_pos = 0, ds_length = 0, ds_lastscan = 0, ds_lastpos = 0,
     ds_lastoffset = 0, ds_db = replicate (length nbuf) 0, ds_eb = replicate (length nbuf) 0,
     ds_dblen = 0, ds_eblen = 0\<rparr>"

definition bsdiff_finish :: "diff_state \<Rightarrow> write_ctx \<Rightarrow> error + write_ctx" where
  "bsdiff_finish s w =
     (case WriteMessage w (MBsdiffControl \<lparr>Add = - 1, Copy = 0, Seek = 0\<rparr>) of
        Inl e \<Rightarrow> Inl e
      | Inr w1 \<Rightarrow>
          (case slice_to (ds_db s) (ds_dblen s) of
             None \<Rightarrow> Inl Panic
           | Some d \<Rightarrow>
               (case WriteMessage w1 (MBsdiffDiff d) of
                  Inl e \<Rightarrow> Inl e
                | Inr w2 \<Rightarrow>
                    (case slice_to (ds_eb s) (ds_eblen s) of
                       None \<Rightarrow> Inl Panic
                     | Some x \<Rightarrow> WriteMessage w2 (MBsdiffExtra x)))))"

definition bsdiff_run :: "int list \<Rightarrow> byte list \<Rightarrow> byte list \<Rightarrow> write_ctx \<Rightarrow> error + write_ctx" where
  "bsdiff_run I obuf nbuf w =
     (case bsdiff_loop I obuf nbuf (diff_init nbuf) w of
        Inl e \<Rightarrow> Inl e
      | Inr (s, w1) \<Rightarrow> bsdiff_finish s w1)"

text \<open>
  \<open>BSDiff(old, new, patch)\<close>, with the two readers given by the buffers \<open>ReadAll\<close> returns.
  The outer \<open>option\<close> is \<open>None\<close> when the suffix sort does not return.
\<close>

definition BSDiff :: "byte list \<Rightarrow> byte list \<Rightarrow> write_ctx \<Rightarrow> (error + write_ctx) option" where
  "BSDiff obuf nbuf w =
     (case qsufsort obuf of
        None \<Rightarrow> None
      | Some None \<Rightarrow> Some (Inl Panic)
      | Some (Some I) \<Rightarrow> Some (bsdiff_run I obuf nbuf w))"

section \<open>The patch (\<open>BSPatch\<close>)\<close>

text \<open>
  \<open>BSPatch\<close> computes with \<open>int64\<close> values that come from the patch, so its additions wrap:
  \<open>i64\<close> reduces an integer to the \<open>int64\<close> it is stored as.
\<close>

definition i64 :: "int \<Rightarrow> int" where
  "i64 x = sint (word_of_int x :: 64 word)"

text \<open>
  Modelled from the spec: the message reader \<open>wire.ReadContext\<close> is not part of the sources.
  Following section 6 of the specification, \<open>ReadMessage\<close> takes exactly one framed record
  from the stream; it fails at the end of the stream and on a record that is not of the
  type asked for.
\<close>

definition ReadMessage :: "msg list \<Rightarrow> (error + msg) \<times> msg list" where
  "ReadMessage r = (case r of [] \<Rightarrow> (Inl ErrRead, []) | m # r1 \<Rightarrow> (Inr m, r1))"

lemma ReadMessage_length: "ReadMessage r = (Inr m, r1) \<Longrightarrow> length r1 < length r"
  by (auto simp: ReadMessage_def split: list.splits)

text \<open>\<open>ReadMessage\<close> into a value of each message type.\<close>

definition read_BsdiffControl :: "msg list \<Rightarrow> (error + BsdiffControl) \<times> msg list" where
  "read_BsdiffControl r =
     (case ReadMessage r of
        (Inr (MBsdiffControl c), r1) \<Rightarrow> (Inr c, r1)
      | (Inr _, r1) \<Rightarrow> (Inl ErrRead, r1)
      | (Inl e, r1) \<Rightarrow> (Inl e, r1))"

definition read_BsdiffDiff :: "msg list \<Rightarrow> (error + byte list) \<times> msg list" where
  "read_BsdiffDiff r =
     (case ReadMessage r of
        (Inr (MBsdiffDiff d), r1) \<Rightarrow> (Inr d, r1)
      | (Inr _, r1) \<Rightarrow> (Inl ErrRead, r1)
      | (Inl e, r1) \<Rightarrow> (Inl e, r1))"

definition read_BsdiffExtra :: "msg list \<Rightarrow> (error + byte list) \<times> msg list" where
  "read_BsdiffExtra r =
     (case ReadMessage r of
        (Inr (MBsdiffExtra d), r1) \<Rightarrow> (Inr d, r1)
      | (Inr _, r1) \<Rightarrow> (Inl ErrRead, r1)
      | (Inl e, r1) \<Rightarrow> (Inl e, r1))"

definition read_SyncHeader :: "msg list \<Rightarrow> (error + SyncHeader) \<times> msg list" where
  "read_SyncHeader r =
     (case ReadMessage r of
        (Inr (MSyncHeader h), r1) \<Rightarrow> (Inr h, r1)
      | (Inr _, r1) \<Rightarrow> (Inl ErrRead, r1)
      | (Inl e, r1) \<Rightarrow> (Inl e, r1))"

definition read_SyncOp :: "msg list \<Rightarrow> (error + SyncOp) \<times> msg list" where
  "read_SyncOp r =
     (case ReadMessage r of
        (Inr (MSyncOp x), r1) \<Rightarrow> (Inr x, r1)
      | (Inr _, r1) \<Rightarrow> (Inl ErrRead, r1)
      | (Inl e, r1) \<Rightarrow> (Inl e, r1))"

definition read_BsdiffHeader :: "msg list \<Rightarrow> (error + int) \<times> msg list" where
  "read_BsdiffHeader r =
     (case ReadMessage r of
        (Inr (MBsdiffHeader t), r1) \<Rightarrow> (Inr t, r1)
      | (Inr _, r1) \<Rightarrow> (Inl ErrRead, r1)
      | (Inl e, r1) \<Rightarrow> (Inl e, r1))"

definition read_Control :: "msg list \<Rightarrow> (error + Control) \<times> msg list" where
  "read_Control r =
     (case ReadMessage r of
        (Inr (MControl c), r1) \<Rightarrow> (Inr c, r1)
      | (Inr _, r1) \<Rightarrow> (Inl ErrRead, r1)
      | (Inl e, r1) \<Rightarrow> (Inl e, r1))"

lemma read_BsdiffControl_length: "read_BsdiffControl r = (Inr c, r1) \<Longrightarrow> length r1 < length r"
  by (auto simp: read_BsdiffControl_def ReadMessage_def split: list.splits msg.splits)

lemma read_SyncOp_length: "read_SyncOp r = (Inr c, r1) \<Longrightarrow> length r1 < length r"
  by (auto simp: read_SyncOp_def ReadMessage_def split: list.splits msg.splits)

lemma read_Control_length: "read_Control r = (Inr c, r1) \<Longrightarrow> length r1 < length r"
  by (auto simp: read_Control_def ReadMessage_def split: list.splits msg.splits)

text \<open>The first loop of \<open>BSPatch\<close>: read control messages up to the one with
  \<open>Add == -1\<close>. The fields read are \<open>int64\<close>.\<close>

function read_ctrl :: "msg list \<Rightarrow> BsdiffControl list
    \<Rightarrow> (error + BsdiffControl list) \<times> msg list" where
  "read_ctrl r ctrlOps =
     (case read_BsdiffControl r of
        (Inl e, r1) \<Rightarrow> (Inl e, r1)
      | (Inr c, r1) \<Rightarrow>
          if i64 (Add c) = - 1 then (Inr ctrlOps, r1)
          else read_ctrl r1
                 (ctrlOps @ [\<lparr>Add = i64 (Add c), Copy = i64 (Copy c), Seek = i64 (Seek c)\<rparr>]))"
  by pat_completeness auto
termination
  by (relation "measure (\<lambda>(r, ctrlOps). length r)")
     (auto dest: read_BsdiffControl_length[OF sym])

declare read_ctrl.simps [simp del]

text \<open>
  \<open>copy(dst[lo:hi], src[slo:shi])\<close>. Either slice expression panics unless
  \<open>0 \<le> lo \<le> hi \<le> cap\<close>; the model takes the capacity of a slice to be its length.
  \<open>copy\<close> moves as many bytes as the shorter of the two slices has.
\<close>

definition copy_slice :: "byte list \<Rightarrow> int \<Rightarrow> int \<Rightarrow> byte list \<Rightarrow> int \<Rightarrow> int \<Rightarrow> byte list option" where
  "copy_slice dst lo hi src slo shi =
     (if 0 \<le> lo \<and> lo \<le> hi \<and> hi \<le> int (length dst) \<and>
         0 \<le> slo \<and> slo \<le> shi \<and> shi \<le> int (length src)
      then Some (take (nat lo) dst
                 @ take (nat (min (hi - lo) (shi - slo))) (drop (nat slo) src)
                 @ drop (nat lo + nat (min (hi - lo) (shi - slo))) dst)
      else None)"

text \<open>\<open>for i := int64(0); i < ctrl.Add; i++ { nbuf[newpos+i] += obuf[oldpos+i] }\<close>.
  Below the \<open>int64\<close> value \<open>ctrl.Add\<close> the increment of \<open>i\<close> cannot wrap.\<close>

function add_old :: "byte list \<Rightarrow> int \<Rightarrow> int \<Rightarrow> int \<Rightarrow> int \<Rightarrow> byte list \<Rightarrow> byte list option" where
  "add_old obuf oldpos newpos cnt i nbuf =
     (if i < cnt then do {
        y \<leftarrow> idx nbuf (i64 (newpos + i));
        x \<leftarrow> idx obuf (i64 (oldpos + i));
        nbuf1 \<leftarrow> upd nbuf (i64 (newpos + i)) (y + x);
        add_old obuf oldpos newpos cnt (i + 1) nbuf1
      } else Some nbuf)"
  by pat_completeness auto
termination
  by (relation "measure (\<lambda>(obuf, oldpos, newpos, cnt, i, nbuf). nat (cnt - i))") auto

declare add_old.simps [simp del]

text \<open>The cursors of \<open>BSPatch\<close> and the buffer it builds.\<close>

record patch_state =
  ps_nbuf :: "byte list"
  ps_oldpos :: int
  ps_newpos :: int
  ps_diffOffset :: int
  ps_extraOffset :: int

text \<open>The loop \<open>for _, ctrl := range ctrlOps\<close>.\<close>

fun apply_ctrl :: "byte list \<Rightarrow> byte list \<Rightarrow> byte list \<Rightarrow> int \<Rightarrow> BsdiffControl list \<Rightarrow> patch_state
    \<Rightarrow> error + patch_state" where
  "apply_ctrl obuf diff extra newSize [] s = Inr s"
| "apply_ctrl obuf diff extra newSize (ctrl # ctrlOps) s =
     (if i64 (ps_newpos s + Add ctrl) > newSize then Inl ErrCorrupt
      else
        (case copy_slice (ps_nbuf s) (ps_newpos s) (i64 (ps_newpos s + Add ctrl))
                diff (ps_diffOffset s) (i64 (ps_diffOffset s + Add ctrl)) of
           None \<Rightarrow> Inl Panic
         | Some nbuf1 \<Rightarrow>
             (case add_old obuf (ps_oldpos s) (ps_newpos s) (Add ctrl) 0 nbuf1 of
                None \<Rightarrow> Inl Panic
              | Some nbuf2 \<Rightarrow>
                  if i64 (i64 (ps_newpos s + Add ctrl) + Copy ctrl) > newSize then Inl ErrCorrupt
                  else
                    (case copy_slice nbuf2 (i64 (ps_newpos s + Add ctrl))
                            (i64 (i64 (ps_newpos s + Add ctrl) + Copy ctrl))
                            extra (ps_extraOffset s) (i64 (ps_extraOffset s + Copy ctrl)) of
                       None \<Rightarrow> Inl Panic
                     | Some nbuf3 \<Rightarrow>
                         apply_ctrl obuf diff extra newSize ctrlOps
                           \<lparr>ps_nbuf = nbuf3,
                            ps_oldpos = i64 (i64 (ps_oldpos s + Add ctrl) + Seek ctrl),
                            ps_newpos = i64 (i64 (ps_newpos s + Add ctrl) + Copy ctrl),
                            ps_diffOffset = i64 (ps_diffOffset s + Add ctrl),
                            ps_extraOffset = i64 (ps_extraOffset s + Copy ctrl)\<rparr>))))"

text \<open>
  The output \<open>io.Writer\<close>: the bytes written so far, and the number of bytes it still accepts
  (\<open>None\<close> for a writer that never fails). \<open>Write\<close> returns the number of bytes taken, with
  an error when it could not take them all.
\<close>

record byte_writer =
  bw_written :: "byte list"
  bw_room :: "nat option"

definition Write :: "byte_writer \<Rightarrow> byte list \<Rightarrow> (nat \<times> error option) \<times> byte_writer" where
  "Write out p =
     (case bw_room out of
        None \<Rightarrow> ((length p, None), out\<lparr>bw_written := bw_written out @ p\<rparr>)
      | Some k \<Rightarrow>
          if length p \<le> k
          then ((length p, None), \<lparr>bw_written = bw_written out @ p, bw_room = Some (k - length p)\<rparr>)
          else ((k, Some ErrWrite), \<lparr>bw_written = bw_written out @ take k p, bw_room = Some 0\<rparr>))"

lemma Write_all_taken: "Write out p = ((n, None), out1) \<Longrightarrow> n = length p"
  by (auto simp: Write_def split: option.splits if_splits)

text \<open>\<open>for len(nbuf) > 0 { n, err := new.Write(nbuf); ...; nbuf = nbuf[n:] }\<close>\<close>

function write_all :: "byte_writer \<Rightarrow> byte list \<Rightarrow> (error + unit) \<times> byte_writer" where
  "write_all out nbuf =
     (if length nbuf > 0 then
        (case Write out nbuf of
           ((n, Some e), out1) \<Rightarrow> (Inl e, out1)
         | ((n, None), out1) \<Rightarrow> write_all out1 (drop n nbuf))
      else (Inr (), out))"
  by pat_completeness auto
termination
  by (relation "measure (\<lambda>(out, nbuf). length nbuf)") (auto dest: Write_all_taken[OF sym])

declare write_all.simps [simp del]

text \<open>
  \<open>BSPatch(old, new, newSize, patch)\<close>, with \<open>old\<close> given by the buffer \<open>ReadAll\<close> returns.
  The result is the error or success, the patch stream where reading stopped, and the
  output writer. \<open>make([]byte, newSize)\<close> panics on a negative size.
\<close>

definition BSPatch :: "byte list \<Rightarrow> byte_writer \<Rightarrow> int \<Rightarrow> msg list
    \<Rightarrow> (error + unit) \<times> msg list \<times> byte_writer" where
  "BSPatch obuf out newSize patch =
     (case read_ctrl patch [] of
        (Inl e, r1) \<Rightarrow> (Inl e, r1, out)
      | (Inr ctrlOps, r1) \<Rightarrow>
          (case read_BsdiffDiff r1 of
             (Inl e, r2) \<Rightarrow> (Inl e, r2, out)
           | (Inr diff, r2) \<Rightarrow>
               (case read_BsdiffExtra r2 of
                  (Inl e, r3) \<Rightarrow> (Inl e, r3, out)
                | (Inr extra, r3) \<Rightarrow>
                    if newSize < 0 then (Inl Panic, r3, out)
                    else
                      (case apply_ctrl obuf diff extra newSize ctrlOps
                              \<lparr>ps_nbuf = replicate (nat newSize) 0, ps_oldpos = 0, ps_newpos = 0,
                               ps_diffOffset = 0, ps_extraOffset = 0\<rparr> of
                         Inl e \<Rightarrow> (Inl e, r3, out)
                       | Inr s \<Rightarrow>
                           (case write_all out (ps_nbuf s) of
                              (res, out1) \<Rightarrow> (res, r3, out1))))))"

section \<open>Reading a patch stream (\<open>probe\<close>)\<close>

text \<open>
  A container is the list of its files. The analysis functions log what they find; the
  model keeps the values they compute (the \<open>targetBlocks\<close> map, the \<open>pristine\<close> count, the
  \<open>freshData\<close> statistics), the errors they return, the panics of their indexing, and the
  cursor of the message stream \<open>rctx\<close>, which is where reading resumes after an error.
\<close>

record File =
  f_Path :: string
  f_Size :: int

record deepDiveContext =
  ddc_target :: "File list"
  ddc_source :: "File list"
  ddc_rctx :: "msg list"

text \<open>\<open>targetBlocks[i] = targetBlocks[i] + span\<close> on a \<open>map[int64]int64\<close>, kept as an
  association list.\<close>

fun bump :: "(int \<times> int) list \<Rightarrow> int \<Rightarrow> int \<Rightarrow> (int \<times> int) list" where
  "bump [] i span = [(i, i64 span)]"
| "bump ((k, v) # m) i span = (if k = i then (k, i64 (v + span)) # m else (k, v) # bump m i span)"

text \<open>The loop \<open>for readingOps\<close> of \<open>analyzeRsync\<close>.\<close>

function analyzeRsync_ops :: "msg list \<Rightarrow> (int \<times> int) list
    \<Rightarrow> (error + (int \<times> int) list) \<times> msg list" where
  "analyzeRsync_ops r targetBlocks =
     (case read_SyncOp r of
        (Inl e, r1) \<Rightarrow> (Inl e, r1)
      | (Inr rop, r1) \<Rightarrow>
          (case op_Type rop of
             BLOCK_RANGE \<Rightarrow>
               analyzeRsync_ops r1 (bump targetBlocks (op_FileIndex rop) (op_BlockSpan rop))
           | DATA \<Rightarrow> analyzeRsync_ops r1 targetBlocks
           | HEY_YOU_DID_IT \<Rightarrow> (Inr targetBlocks, r1)
           | OtherOp t \<Rightarrow> analyzeRsync_ops r1 targetBlocks))"
  by pat_completeness auto
termination
  by (relation "measure (\<lambda>(r, targetBlocks). length r)")
     (auto dest: read_SyncOp_length[OF sym])

declare analyzeRsync_ops.simps [simp del]

datatype report = RsyncReport "(int \<times> int) list" | BsdiffReport int

definition analyzeRsync :: "deepDiveContext \<Rightarrow> SyncHeader \<Rightarrow> (error + report) \<times> deepDiveContext" where
  "analyzeRsync ddc sh =
     (case idx (ddc_source ddc) (sh_FileIndex sh) of
        None \<Rightarrow> (Inl Panic, ddc)
      | Some f \<Rightarrow>
          (case analyzeRsync_ops (ddc_rctx ddc) [] of
             (Inl e, r1) \<Rightarrow> (Inl e, ddc\<lparr>ddc_rctx := r1\<rparr>)
           | (Inr targetBlocks, r1) \<Rightarrow>
               if list_all (\<lambda>(i, numBlocks). idx (ddc_target ddc) i \<noteq> None) targetBlocks
               then (Inr (RsyncReport targetBlocks), ddc\<lparr>ddc_rctx := r1\<rparr>)
               else (Inl Panic, ddc\<lparr>ddc_rctx := r1\<rparr>)))"

text \<open>The inner loop \<open>for _, b := range bc.Add\<close> of \<open>analyzeBsdiff\<close>, taken when
  \<open>oldpos == newpos\<close>: it counts the zero bytes.\<close>

definition count_unchanged :: "byte list \<Rightarrow> int" where
  "count_unchanged bs = int (length (filter (\<lambda>b. b = 0) bs))"

text \<open>The loop \<open>for readingOps\<close> of \<open>analyzeBsdiff\<close>, on \<open>oldpos\<close>, \<open>newpos\<close> and
  \<open>pristine\<close>.\<close>

function analyzeBsdiff_ops :: "msg list \<Rightarrow> int \<Rightarrow> int \<Rightarrow> int \<Rightarrow> (error + int) \<times> msg list" where
  "analyzeBsdiff_ops r oldpos newpos pristine =
     (case read_Control r of
        (Inl e, r1) \<Rightarrow> (Inl e, r1)
      | (Inr bc, r1) \<Rightarrow>
          if ctl_Eof bc then (Inr pristine, r1)
          else analyzeBsdiff_ops r1
                 (i64 (i64 (oldpos + int (length (ctl_Add bc))) + ctl_Seek bc))
                 (i64 (i64 (newpos + int (length (ctl_Add bc))) + int (length (ctl_Copy bc))))
                 (if length (ctl_Add bc) > 0 \<and> oldpos = newpos
                  then i64 (pristine + count_unchanged (ctl_Add bc)) else pristine))"
  by pat_completeness auto
termination
  by (relation "measure (\<lambda>(r, oldpos, newpos, pristine). length r)")
     (auto dest: read_Control_length[OF sym])

declare analyzeBsdiff_ops.simps [simp del]

definition analyzeBsdiff :: "deepDiveContext \<Rightarrow> SyncHeader \<Rightarrow> (error + report) \<times> deepDiveContext" where
  "analyzeBsdiff ddc sh =
     (case idx (ddc_source ddc) (sh_FileIndex sh) of
        None \<Rightarrow> (Inl Panic, ddc)
      | Some f \<Rightarrow>
          (case read_BsdiffHeader (ddc_rctx ddc) of
             (Inl e, r1) \<Rightarrow> (Inl e, ddc\<lparr>ddc_rctx := r1\<rparr>)
           | (Inr targetIndex, r1) \<Rightarrow>
               (case idx (ddc_target ddc) targetIndex of
                  None \<Rightarrow> (Inl Panic, ddc\<lparr>ddc_rctx := r1\<rparr>)
                | Some tf \<Rightarrow>
                    (case analyzeBsdiff_ops r1 0 0 0 of
                       (Inl e, r2) \<Rightarrow> (Inl e, ddc\<lparr>ddc_rctx := r2\<rparr>)
                     | (Inr pristine, r2) \<Rightarrow>
                         (case read_SyncOp r2 of
                            (Inl e, r3) \<Rightarrow> (Inl e, ddc\<lparr>ddc_rctx := r3\<rparr>)
                          | (Inr rop, r3) \<Rightarrow>
                              if op_Type rop \<noteq> HEY_YOU_DID_IT
                              then (Inl ErrMalformed, ddc\<lparr>ddc_rctx := r3\<rparr>)
                              else (Inr (BsdiffReport pristine), ddc\<lparr>ddc_rctx := r3\<rparr>))))))"

definition analyzeSeries :: "deepDiveContext \<Rightarrow> SyncHeader \<Rightarrow> (error + report) \<times> deepDiveContext" where
  "analyzeSeries ddc sh =
     (case sh_Type sh of
        RSYNC \<Rightarrow> analyzeRsync ddc sh
      | BSDIFF \<Rightarrow> analyzeBsdiff ddc sh
      | OtherSeries t \<Rightarrow> (Inl ErrUnsupported, ddc))"

text \<open>The two loops \<open>for readingOps\<close> of \<open>skipSeries\<close>.\<close>

function skip_rsync_ops :: "msg list \<Rightarrow> (error + unit) \<times> msg list" where
  "skip_rsync_ops r =
     (case read_SyncOp r of
        (Inl e, r1) \<Rightarrow> (Inl e, r1)
      | (Inr rop, r1) \<Rightarrow>
          if op_Type rop = HEY_YOU_DID_IT then (Inr (), r1) else skip_rsync_ops r1)"
  by pat_completeness auto
termination
  by (relation "measure length") (auto dest: read_SyncOp_length[OF sym])

declare skip_rsync_ops.simps [simp del]

function skip_bsdiff_ops :: "msg list \<Rightarrow> (error + unit) \<times> msg list" where
  "skip_bsdiff_ops r =
     (case read_Control r of
        (Inl e, r1) \<Rightarrow> (Inl e, r1)
      | (Inr bc, r1) \<Rightarrow> if ctl_Eof bc then (Inr (), r1) else skip_bsdiff_ops r1)"
  by pat_completeness auto
termination
  by (relation "measure length") (auto dest: read_Control_length[OF sym])

declare skip_bsdiff_ops.simps [simp del]

definition skipSeries :: "deepDiveContext \<Rightarrow> SyncHeader \<Rightarrow> (error + unit) \<times> deepDiveContext" where
  "skipSeries ddc sh =
     (case sh_Type sh of
        RSYNC \<Rightarrow>
          (case skip_rsync_ops (ddc_rctx ddc) of (res, r1) \<Rightarrow> (res, ddc\<lparr>ddc_rctx := r1\<rparr>))
      | BSDIFF \<Rightarrow>
          (case read_BsdiffHeader (ddc_rctx ddc) of
             (Inl e, r1) \<Rightarrow> (Inl e, ddc\<lparr>ddc_rctx := r1\<rparr>)
           | (Inr targetIndex, r1) \<Rightarrow>
               (case skip_bsdiff_ops r1 of
                  (Inl e, r2) \<Rightarrow> (Inl e, ddc\<lparr>ddc_rctx := r2\<rparr>)
                | (Inr u, r2) \<Rightarrow>
                    (case read_SyncOp r2 of
                       (Inl e, r3) \<Rightarrow> (Inl e, ddc\<lparr>ddc_rctx := r3\<rparr>)
                     | (Inr rop, r3) \<Rightarrow>
                         if op_Type rop \<noteq> HEY_YOU_DID_IT
                         then (Inl ErrMalformed, ddc\<lparr>ddc_rctx := r3\<rparr>)
                         else (Inr (), ddc\<lparr>ddc_rctx := r3\<rparr>))))
      | OtherSeries t \<Rightarrow> (Inl ErrUnsupported, ddc))"

text \<open>
  The loop \<open>for fileIndex := range source.Files\<close> of \<open>doDeepAnalysis\<close>, over the files
  still to come. The error of \<open>analyzeSeries\<close> is assigned and not looked at, so the loop goes
  on after it; a panic ends the program.
\<close>

fun deep_files :: "(int \<Rightarrow> bool) \<Rightarrow> deepDiveContext \<Rightarrow> int \<Rightarrow> File list
    \<Rightarrow> (error + unit) \<times> deepDiveContext" where
  "deep_files topIndexMap ddc fileIndex [] = (Inr (), ddc)"
| "deep_files topIndexMap ddc fileIndex (f # fs) =
     (case read_SyncHeader (ddc_rctx ddc) of
        (Inl e, r1) \<Rightarrow> (Inl e, ddc\<lparr>ddc_rctx := r1\<rparr>)
      | (Inr sh, r1) \<Rightarrow>
          if sh_FileIndex sh \<noteq> fileIndex then (Inl ErrMalformed, ddc\<lparr>ddc_rctx := r1\<rparr>)
          else if topIndexMap (sh_FileIndex sh) then
            (case analyzeSeries (ddc\<lparr>ddc_rctx := r1\<rparr>) sh of
               (Inl Panic, ddc2) \<Rightarrow> (Inl Panic, ddc2)
             | (res, ddc2) \<Rightarrow> deep_files topIndexMap ddc2 (fileIndex + 1) fs)
          else
            (case skipSeries (ddc\<lparr>ddc_rctx := r1\<rparr>) sh of
               (Inl e, ddc2) \<Rightarrow> (Inl e, ddc2)
             | (Inr u, ddc2) \<Rightarrow> deep_files topIndexMap ddc2 (fileIndex + 1) fs))"

definition doDeepAnalysis :: "(int \<Rightarrow> bool) \<Rightarrow> deepDiveContext \<Rightarrow> (error + unit) \<times> deepDiveContext" where
  "doDeepAnalysis topIndexMap ddc = deep_files topIndexMap ddc 0 (ddc_source ddc)"

text \<open>
  Modelled from the spec: \<open>pwr.ComputeBlockSize\<close> and the constant \<open>pwr.BlockSize\<close> are not
  part of the sources. Following sections 4.5 and 6 of the specification, the size of a
  block is \<open>BlockSize\<close> for all but the last block of a file, and
  \<open>fileSize - blockIndex * BlockSize\<close> for the last one. \<open>BlockSize\<close> is a parameter.
\<close>

definition ComputeBlockSize :: "int \<Rightarrow> int \<Rightarrow> int \<Rightarrow> int" where
  "ComputeBlockSize BlockSize fileSize blockIndex =
     (if BlockSize * (blockIndex + 1) > fileSize then fileSize - blockIndex * BlockSize
      else BlockSize)"

record patchStat =
  st_fileIndex :: int
  st_freshData :: int
  st_algo :: SyncHeader_Type

text \<open>The two loops \<open>for readingOps\<close> of \<open>doPrimaryAnalysis\<close>, on \<open>stat.freshData\<close>.\<close>

function primary_rsync_ops :: "int \<Rightarrow> int \<Rightarrow> msg list \<Rightarrow> int \<Rightarrow> (error + int) \<times> msg list" where
  "primary_rsync_ops BlockSize fileSize r freshData =
     (case read_SyncOp r of
        (Inl e, r1) \<Rightarrow> (Inl e, r1)
      | (Inr rop, r1) \<Rightarrow>
          (case op_Type rop of
             BLOCK_RANGE \<Rightarrow>
               primary_rsync_ops BlockSize fileSize r1
                 (i64 (freshData -
                    i64 (i64 (i64 (op_BlockSpan rop - 1) * BlockSize) +
                      ComputeBlockSize BlockSize fileSize
                        (i64 (op_BlockIndex rop + i64 (op_BlockSpan rop - 1))))))
           | DATA \<Rightarrow> primary_rsync_ops BlockSize fileSize r1 freshData
           | HEY_YOU_DID_IT \<Rightarrow> (Inr freshData, r1)
           | OtherOp t \<Rightarrow> primary_rsync_ops BlockSize fileSize r1 freshData))"
  by pat_completeness auto
termination
  by (relation "measure (\<lambda>(BlockSize, fileSize, r, freshData). length r)")
     (auto dest: read_SyncOp_length[OF sym])

declare primary_rsync_ops.simps [simp del]

function primary_bsdiff_ops :: "msg list \<Rightarrow> int \<Rightarrow> (error + int) \<times> msg list" where
  "primary_bsdiff_ops r freshData =
     (case read_Control r of
        (Inl e, r1) \<Rightarrow> (Inl e, r1)
      | (Inr bc, r1) \<Rightarrow>
          if ctl_Eof bc then (Inr (i64 (freshData - count_unchanged (ctl_Add bc))), r1)
          else primary_bsdiff_ops r1 (i64 (freshData - count_unchanged (ctl_Add bc))))"
  by pat_completeness auto
termination
  by (relation "measure (\<lambda>(r, freshData). length r)") (auto dest: read_Control_length[OF sym])

declare primary_bsdiff_ops.simps [simp del]

text \<open>The body of \<open>for fileIndex, f := range source.Files\<close> in \<open>doPrimaryAnalysis\<close> after
  the header is read and its index checked: the \<open>switch sh.Type\<close>, which has no default
  case.\<close>

definition primary_series :: "int \<Rightarrow> File \<Rightarrow> SyncHeader \<Rightarrow> msg list \<Rightarrow> (error + int) \<times> msg list" where
  "primary_series BlockSize f sh r =
     (case sh_Type sh of
        RSYNC \<Rightarrow> primary_rsync_ops BlockSize (f_Size f) r (f_Size f)
      | BSDIFF \<Rightarrow>
          (case read_BsdiffHeader r of
             (Inl e, r1) \<Rightarrow> (Inl e, r1)
           | (Inr targetIndex, r1) \<Rightarrow>
               (case primary_bsdiff_ops r1 (f_Size f) of
                  (Inl e, r2) \<Rightarrow> (Inl e, r2)
                | (Inr freshData, r2) \<Rightarrow>
                    (case read_SyncOp r2 of
                       (Inl e, r3) \<Rightarrow> (Inl e, r3)
                     | (Inr rop, r3) \<Rightarrow>
                         if op_Type rop \<noteq> HEY_YOU_DID_IT then (Inl ErrMalformed, r3)
                         else (Inr freshData, r3))))
      | OtherSeries t \<Rightarrow> (Inr (f_Size f), r))"

fun primary_files :: "int \<Rightarrow> msg list \<Rightarrow> int \<Rightarrow> File list \<Rightarrow> patchStat list
    \<Rightarrow> (error + patchStat list) \<times> msg list" where
  "primary_files BlockSize r fileIndex [] patchStats = (Inr patchStats, r)"
| "primary_files BlockSize r fileIndex (f # fs) patchStats =
     (case read_SyncHeader r of
        (Inl e, r1) \<Rightarrow> (Inl e, r1)
      | (Inr sh, r1) \<Rightarrow>
          if sh_FileIndex sh \<noteq> fileIndex then (Inl ErrMalformed, r1)
          else
            (case primary_series BlockSize f sh r1 of
               (Inl e, r2) \<Rightarrow> (Inl e, r2)
             | (Inr freshData, r2) \<Rightarrow>
                 primary_files BlockSize r2 (fileIndex + 1) fs
                   (patchStats @ [\<lparr>st_fileIndex = fileIndex, st_freshData = freshData,
                                   st_algo = sh_Type sh\<rparr>])))"

section \<open>Notions used to state the properties\<close>

text \<open>The bytes of an ASCII string.\<close>

definition bytes :: "string \<Rightarrow> byte list" where
  "bytes s = map of_char s"




text \<open>The result of an analysis without its report, to compare it with the result of a skip.\<close>

definition drop_report :: "error + 'a \<Rightarrow> error + unit" where
  "drop_report res = (case res of Inl e \<Rightarrow> Inl e | Inr x \<Rightarrow> Inr ())"

text \<open>
  Well-formed series, after section 3 of the specification. An RSYNC series is a sequence of
  \<open>BLOCK_RANGE\<close> ops (each naming a file of the old container) and \<open>DATA\<close> ops ended by a
  \<open>HEY_YOU_DID_IT\<close> op. A BSDIFF series is a header naming a file of the old container, control
  messages up to the one marked \<open>Eof\<close>, and one \<open>HEY_YOU_DID_IT\<close> op. Each function returns the
  stream after the series, or \<open>None\<close> when the stream does not start with such a series.
  \<open>stream_end tgt i n\<close> does so for \<open>n\<close> series, each behind its header, for the files
  \<open>i, i+1, ...\<close> in order.
\<close>

fun rsync_series_end :: "File list \<Rightarrow> msg list \<Rightarrow> msg list option" where
  "rsync_series_end tgt (MSyncOp x # r) =
     (case op_Type x of
        HEY_YOU_DID_IT \<Rightarrow> Some r
      | BLOCK_RANGE \<Rightarrow> if idx tgt (op_FileIndex x) \<noteq> None then rsync_series_end tgt r else None
      | DATA \<Rightarrow> rsync_series_end tgt r
      | OtherOp t \<Rightarrow> None)"
| "rsync_series_end tgt r = None"

fun triples_end :: "msg list \<Rightarrow> msg list option" where
  "triples_end (MControl c # r) = (if ctl_Eof c then Some r else triples_end r)"
| "triples_end r = None"

fun bsdiff_series_end :: "File list \<Rightarrow> msg list \<Rightarrow> msg list option" where
  "bsdiff_series_end tgt (MBsdiffHeader t # r) =
     (if idx tgt t \<noteq> None then
        (case triples_end r of
           Some (MSyncOp x # r2) \<Rightarrow> if op_Type x = HEY_YOU_DID_IT then Some r2 else None
         | _ \<Rightarrow> None)
      else None)"
| "bsdiff_series_end tgt r = None"

definition series_end :: "File list \<Rightarrow> SyncHeader \<Rightarrow> msg list \<Rightarrow> msg list option" where
  "series_end tgt sh r =
     (case sh_Type sh of
        RSYNC \<Rightarrow> rsync_series_end tgt r
      | BSDIFF \<Rightarrow> bsdiff_series_end tgt r
      | OtherSeries t \<Rightarrow> None)"

fun stream_end :: "File list \<Rightarrow> int \<Rightarrow> nat \<Rightarrow> msg list \<Rightarrow> msg list option" where
  "stream_end tgt i 0 r = Some r"
| "stream_end tgt i (Suc n) (MSyncHeader sh # r) =
     (if sh_FileIndex sh = i then
        (case series_end tgt sh r of
           Some r2 \<Rightarrow> stream_end tgt (i + 1) n r2
         | None \<Rightarrow> None)
      else None)"
| "stream_end tgt i (Suc n) r = None"

section \<open>Properties of \<open>BSPatch\<close>\<close>


lemma i64_id: "- (2 ^ 63) \<le> x \<Longrightarrow> x < 2 ^ 63 \<Longrightarrow> i64 x = x"
  unfolding i64_def by (simp add: sint_sbintrunc' signed_take_bit_int_eq_self)










lemma write_all_error: "write_all out nbuf = (Inl e, out1) \<Longrightarrow> e = ErrWrite"
proof (induction out nbuf rule: write_all.induct)
  case (1 out nbuf)
  show ?case
  proof (cases "length nbuf > 0")
    case False
    with "1.prems" show ?thesis by (subst (asm) write_all.simps) simp
  next
    case True
    obtain n eo o1 where w: "Write out nbuf = ((n, eo), o1)" by (metis prod.exhaust)
    show ?thesis
    proof (cases eo)
      case None
      with "1.prems" True w have "write_all o1 (drop n nbuf) = (Inl e, out1)"
        by (subst (asm) write_all.simps) simp
      from "1.IH"[OF True w[symmetric] refl _ this] None show ?thesis by simp
    next
      case (Some e')
      with w have "e' = ErrWrite" by (auto simp: Write_def split: option.splits if_splits)
      with "1.prems" True w Some show ?thesis by (subst (asm) write_all.simps) simp
    qed
  qed
qed











text \<open>
  Claim C10. \<open>BSPatch\<close> writes to the output only after the loop over the control triples
  has completed: whenever it returns an error other than a failure of the output writer
  itself (\<open>ErrCorrupt\<close>, a read error, a panic), the writer is as it was before the call.
\<close>

theorem bspatch_error_writes_nothing:
  assumes "fst (BSPatch obuf out newSize patch) = Inl e" and "e \<noteq> ErrWrite"
  shows "snd (snd (BSPatch obuf out newSize patch)) = out"
  using assms
  by (auto simp: BSPatch_def split: prod.splits sum.splits if_splits dest: write_all_error)

theorem bspatch_error_writes_nothing_witness:
  "fst (BSPatch [5, 5] \<lparr>bw_written = [7], bw_room = Some 1\<rparr> 1
         [MBsdiffControl \<lparr>Add = 1, Copy = 0, Seek = 0\<rparr>,
          MBsdiffControl \<lparr>Add = 1, Copy = 0, Seek = 0\<rparr>,
          MBsdiffControl \<lparr>Add = - 1, Copy = 0, Seek = 0\<rparr>,
          MBsdiffDiff [0, 0], MBsdiffExtra []]) = Inl ErrCorrupt
   \<and> ErrCorrupt \<noteq> ErrWrite
   \<and> snd (snd (BSPatch [5, 5] \<lparr>bw_written = [7], bw_room = Some 1\<rparr> 1
         [MBsdiffControl \<lparr>Add = 1, Copy = 0, Seek = 0\<rparr>,
          MBsdiffControl \<lparr>Add = 1, Copy = 0, Seek = 0\<rparr>,
          MBsdiffControl \<lparr>Add = - 1, Copy = 0, Seek = 0\<rparr>,
          MBsdiffDiff [0, 0], MBsdiffExtra []])) = \<lparr>bw_written = [7], bw_room = Some 1\<rparr>"
proof -
  have e: "fst (BSPatch [5, 5] \<lparr>bw_written = [7], bw_room = Some 1\<rparr> 1
         [MBsdiffControl \<lparr>Add = 1, Copy = 0, Seek = 0\<rparr>,
          MBsdiffControl \<lparr>Add = 1, Copy = 0, Seek = 0\<rparr>,
          MBsdiffControl \<lparr>Add = - 1, Copy = 0, Seek = 0\<rparr>,
          MBsdiffDiff [0, 0], MBsdiffExtra []]) = Inl ErrCorrupt"
    by code_simp
  have n: "ErrCorrupt \<noteq> ErrWrite" by simp
  from bspatch_error_writes_nothing[OF e n] e n show ?thesis by simp
qed

section \<open>Properties of the stream readers\<close>

lemma read_Control_Cons [simp]: "read_Control (MControl c # r) = (Inr c, r)"
  by (simp add: read_Control_def ReadMessage_def)

lemma read_SyncOp_Cons [simp]: "read_SyncOp (MSyncOp x # r) = (Inr x, r)"
  by (simp add: read_SyncOp_def ReadMessage_def)

lemma read_BsdiffHeader_Cons [simp]: "read_BsdiffHeader (MBsdiffHeader t # r) = (Inr t, r)"
  by (simp add: read_BsdiffHeader_def ReadMessage_def)

lemma read_SyncHeader_Cons [simp]: "read_SyncHeader (MSyncHeader h # r) = (Inr h, r)"
  by (simp add: read_SyncHeader_def ReadMessage_def)

lemma skip_bsdiff_ops_series:
  "\<forall>c\<in>set cs. \<not> ctl_Eof c \<Longrightarrow> ctl_Eof eof \<Longrightarrow>
     skip_bsdiff_ops (map MControl cs @ MControl eof # rest) = (Inr (), rest)"
  by (induction cs) (simp_all add: skip_bsdiff_ops.simps)

lemma analyzeBsdiff_ops_series:
  "\<forall>c\<in>set cs. \<not> ctl_Eof c \<Longrightarrow> ctl_Eof eof \<Longrightarrow>
     \<exists>p. analyzeBsdiff_ops (map MControl cs @ MControl eof # rest) oldpos newpos pristine = (Inr p, rest)"
proof (induction cs arbitrary: oldpos newpos pristine)
  case Nil
  then show ?case by (simp add: analyzeBsdiff_ops.simps)
next
  case (Cons c cs)
  then show ?case by (subst analyzeBsdiff_ops.simps) simp
qed

lemma primary_bsdiff_ops_series:
  "\<forall>c\<in>set cs. \<not> ctl_Eof c \<Longrightarrow> ctl_Eof eof \<Longrightarrow>
     \<exists>p. primary_bsdiff_ops (map MControl cs @ MControl eof # rest) freshData = (Inr p, rest)"
proof (induction cs arbitrary: freshData)
  case Nil
  then show ?case by (simp add: primary_bsdiff_ops.simps)
next
  case (Cons c cs)
  then show ?case by (subst primary_bsdiff_ops.simps) simp
qed

text \<open>
  A BSDIFF series is the header, the control messages up to the one marked \<open>Eof\<close>, and then
  one \<open>SyncOp\<close>. When that op is not \<open>HEY_YOU_DID_IT\<close>, each reader of the series
  (\<open>analyzeBsdiff\<close>, \<open>skipSeries\<close>, and the \<open>BSDIFF\<close> case of \<open>doPrimaryAnalysis\<close>, whose file
  loop returns at once) returns the malformed-patch error, having read the op.
\<close>

lemma bsdiff_readers_require_terminator:
  assumes "\<forall>c\<in>set cs. \<not> ctl_Eof c" and "ctl_Eof eof"
    and "op_Type rop \<noteq> HEY_YOU_DID_IT"
    and "sh_Type sh = BSDIFF"
    and "ddc_rctx ddc = MBsdiffHeader t # map MControl cs @ MControl eof # MSyncOp rop # rest"
    and "idx (ddc_source ddc) (sh_FileIndex sh) \<noteq> None"
    and "idx (ddc_target ddc) t \<noteq> None"
  shows "analyzeBsdiff ddc sh = (Inl ErrMalformed, ddc\<lparr>ddc_rctx := rest\<rparr>)
       \<and> skipSeries ddc sh = (Inl ErrMalformed, ddc\<lparr>ddc_rctx := rest\<rparr>)
       \<and> primary_series BlockSize f sh (ddc_rctx ddc) = (Inl ErrMalformed, rest)
       \<and> primary_files BlockSize (MSyncHeader sh # ddc_rctx ddc) (sh_FileIndex sh) (f # fs) stats
           = (Inl ErrMalformed, rest)"
proof -
  obtain p where a: "analyzeBsdiff_ops (map MControl cs @ MControl eof # MSyncOp rop # rest) 0 0 0
      = (Inr p, MSyncOp rop # rest)"
    using analyzeBsdiff_ops_series[OF assms(1,2)] by blast
  obtain q where q: "primary_bsdiff_ops (map MControl cs @ MControl eof # MSyncOp rop # rest) (f_Size f)
      = (Inr q, MSyncOp rop # rest)"
    using primary_bsdiff_ops_series[OF assms(1,2)] by blast
  note s = skip_bsdiff_ops_series[OF assms(1,2), of "MSyncOp rop # rest"]
  have 1: "analyzeBsdiff ddc sh = (Inl ErrMalformed, ddc\<lparr>ddc_rctx := rest\<rparr>)"
    using assms(3,5,6,7) a by (auto simp: analyzeBsdiff_def)
  have 2: "skipSeries ddc sh = (Inl ErrMalformed, ddc\<lparr>ddc_rctx := rest\<rparr>)"
    using assms(3,4,5) s by (simp add: skipSeries_def)
  have 3: "primary_series BlockSize f sh (ddc_rctx ddc) = (Inl ErrMalformed, rest)"
    using assms(3,4,5) q by (simp add: primary_series_def)
  have 4: "primary_files BlockSize (MSyncHeader sh # ddc_rctx ddc) (sh_FileIndex sh) (f # fs) stats
           = (Inl ErrMalformed, rest)"
    using 3 by simp
  from 1 2 3 4 show ?thesis by blast
qed

lemma bsdiff_readers_require_terminator_example:
  "analyzeBsdiff
     \<lparr>ddc_target = [\<lparr>f_Path = ''a'', f_Size = 1\<rparr>], ddc_source = [\<lparr>f_Path = ''a'', f_Size = 1\<rparr>],
      ddc_rctx = [MBsdiffHeader 0,
                  MControl \<lparr>ctl_Add = [0], ctl_Copy = [], ctl_Seek = 0, ctl_Eof = False\<rparr>,
                  MControl \<lparr>ctl_Add = [], ctl_Copy = [], ctl_Seek = 0, ctl_Eof = True\<rparr>,
                  MSyncOp \<lparr>op_Type = DATA, op_FileIndex = 0, op_BlockIndex = 0, op_BlockSpan = 0,
                           op_Data = [1]\<rparr>]\<rparr>
     \<lparr>sh_Type = BSDIFF, sh_FileIndex = 0\<rparr>
   = (Inl ErrMalformed,
      \<lparr>ddc_target = [\<lparr>f_Path = ''a'', f_Size = 1\<rparr>], ddc_source = [\<lparr>f_Path = ''a'', f_Size = 1\<rparr>],
       ddc_rctx = []\<rparr>)
   \<and> skipSeries
     \<lparr>ddc_target = [\<lparr>f_Path = ''a'', f_Size = 1\<rparr>], ddc_source = [\<lparr>f_Path = ''a'', f_Size = 1\<rparr>],
      ddc_rctx = [MBsdiffHeader 0,
                  MControl \<lparr>ctl_Add = [0], ctl_Copy = [], ctl_Seek = 0, ctl_Eof = False\<rparr>,
                  MControl \<lparr>ctl_Add = [], ctl_Copy = [], ctl_Seek = 0, ctl_Eof = True\<rparr>,
                  MSyncOp \<lparr>op_Type = DATA, op_FileIndex = 0, op_BlockIndex = 0, op_BlockSpan = 0,
                           op_Data = [1]\<rparr>]\<rparr>
     \<lparr>sh_Type = BSDIFF, sh_FileIndex = 0\<rparr>
   = (Inl ErrMalformed,
      \<lparr>ddc_target = [\<lparr>f_Path = ''a'', f_Size = 1\<rparr>], ddc_source = [\<lparr>f_Path = ''a'', f_Size = 1\<rparr>],
       ddc_rctx = []\<rparr>)"
proof -
  let ?c = "\<lparr>ctl_Add = [0], ctl_Copy = [], ctl_Seek = 0, ctl_Eof = False\<rparr>"
  let ?e = "\<lparr>ctl_Add = [], ctl_Copy = [], ctl_Seek = 0, ctl_Eof = True\<rparr>"
  let ?op = "\<lparr>op_Type = DATA, op_FileIndex = 0, op_BlockIndex = 0, op_BlockSpan = 0, op_Data = [1]\<rparr>"
  let ?f = "\<lparr>f_Path = ''a'', f_Size = 1\<rparr>"
  let ?ddc = "\<lparr>ddc_target = [?f], ddc_source = [?f],
               ddc_rctx = [MBsdiffHeader 0, MControl ?c, MControl ?e, MSyncOp ?op]\<rparr>"
  let ?sh = "\<lparr>sh_Type = BSDIFF, sh_FileIndex = 0\<rparr>"
  have 1: "\<forall>c\<in>set [?c]. \<not> ctl_Eof c" by simp
  have 2: "ctl_Eof ?e" by simp
  have 3: "op_Type ?op \<noteq> HEY_YOU_DID_IT" by simp
  have 4: "sh_Type ?sh = BSDIFF" by simp
  have 5: "ddc_rctx ?ddc = MBsdiffHeader 0 # map MControl [?c] @ MControl ?e # MSyncOp ?op # []"
    by simp
  have 6: "idx (ddc_source ?ddc) (sh_FileIndex ?sh) \<noteq> None" by (simp add: idx_def)
  have 7: "idx (ddc_target ?ddc) 0 \<noteq> None" by (simp add: idx_def)
  from bsdiff_readers_require_terminator[OF 1 2 3 4 5 6 7, of 65536 ?f "[]" "[]"]
  show ?thesis by simp
qed


lemma skip_rsync_ops_eq:
  "skip_rsync_ops r = (drop_report (fst (analyzeRsync_ops r tb)), snd (analyzeRsync_ops r tb))"
proof (induction r tb rule: analyzeRsync_ops.induct)
  case (1 r tb)
  obtain res r1 where rd: "read_SyncOp r = (res, r1)" by (cases "read_SyncOp r")
  show ?case
  proof (cases res)
    case (Inl e)
    with rd show ?thesis
      by (subst skip_rsync_ops.simps, subst (1 2) analyzeRsync_ops.simps) (simp add: drop_report_def)
  next
    case (Inr rop)
    note IH = "1.IH"[OF rd[symmetric, unfolded Inr] refl]
    show ?thesis
    proof (cases "op_Type rop")
      case BLOCK_RANGE
      with rd Inr IH(1)[OF BLOCK_RANGE] show ?thesis
        by (subst skip_rsync_ops.simps, subst (1 2) analyzeRsync_ops.simps) simp
    next
      case DATA
      with rd Inr IH(2)[OF DATA] show ?thesis
        by (subst skip_rsync_ops.simps, subst (1 2) analyzeRsync_ops.simps) simp
    next
      case HEY_YOU_DID_IT
      with rd Inr show ?thesis
        by (subst skip_rsync_ops.simps, subst (1 2) analyzeRsync_ops.simps) (simp add: drop_report_def)
    next
      case (OtherOp t)
      with rd Inr IH(3)[OF OtherOp] show ?thesis
        by (subst skip_rsync_ops.simps, subst (1 2) analyzeRsync_ops.simps) simp
    qed
  qed
qed

lemma skip_bsdiff_ops_eq:
  "skip_bsdiff_ops r = (drop_report (fst (analyzeBsdiff_ops r a b c)), snd (analyzeBsdiff_ops r a b c))"
proof (induction r a b c rule: analyzeBsdiff_ops.induct)
  case (1 r oldpos newpos pristine)
  obtain res r1 where rd: "read_Control r = (res, r1)" by (cases "read_Control r")
  show ?case
  proof (cases res)
    case (Inl e)
    with rd show ?thesis
      by (subst skip_bsdiff_ops.simps, subst (1 2) analyzeBsdiff_ops.simps) (simp add: drop_report_def)
  next
    case (Inr bc)
    show ?thesis
    proof (cases "ctl_Eof bc")
      case True
      with rd Inr show ?thesis
        by (subst skip_bsdiff_ops.simps, subst (1 2) analyzeBsdiff_ops.simps) (simp add: drop_report_def)
    next
      case False
      with rd Inr "1.IH"[OF rd[symmetric, unfolded Inr] refl False] show ?thesis
        by (subst skip_bsdiff_ops.simps, subst (1 2) analyzeBsdiff_ops.simps) simp
    qed
  qed
qed

lemma analyze_skip_rsync:
  assumes "fst (analyzeRsync ddc sh) \<noteq> Inl Panic" "sh_Type sh = RSYNC"
  shows "skipSeries ddc sh = (drop_report (fst (analyzeRsync ddc sh)), snd (analyzeRsync ddc sh))"
proof -
  from assms(1) obtain f where f: "idx (ddc_source ddc) (sh_FileIndex sh) = Some f"
    by (auto simp: analyzeRsync_def split: option.splits)
  obtain res r1 where a: "analyzeRsync_ops (ddc_rctx ddc) [] = (res, r1)"
    by (cases "analyzeRsync_ops (ddc_rctx ddc) []")
  with skip_rsync_ops_eq[of "ddc_rctx ddc" "[]"]
  have s: "skip_rsync_ops (ddc_rctx ddc) = (drop_report res, r1)" by simp
  show ?thesis
  proof (cases res)
    case (Inl e)
    with f a s assms(2) show ?thesis
      by (simp add: analyzeRsync_def skipSeries_def drop_report_def)
  next
    case (Inr tb)
    with assms(1) f a have "list_all (\<lambda>(i, numBlocks). idx (ddc_target ddc) i \<noteq> None) tb"
      by (auto simp: analyzeRsync_def split: if_splits)
    with Inr f a s assms(2) show ?thesis
      by (simp add: analyzeRsync_def skipSeries_def drop_report_def)
  qed
qed

lemma analyze_skip_bsdiff:
  assumes "fst (analyzeBsdiff ddc sh) \<noteq> Inl Panic" "sh_Type sh = BSDIFF"
  shows "skipSeries ddc sh = (drop_report (fst (analyzeBsdiff ddc sh)), snd (analyzeBsdiff ddc sh))"
proof -
  from assms(1) obtain f where f: "idx (ddc_source ddc) (sh_FileIndex sh) = Some f"
    by (auto simp: analyzeBsdiff_def split: option.splits)
  obtain hres r1 where h: "read_BsdiffHeader (ddc_rctx ddc) = (hres, r1)"
    by (cases "read_BsdiffHeader (ddc_rctx ddc)")
  show ?thesis
  proof (cases hres)
    case (Inl e)
    with f h assms(2) show ?thesis
      by (simp add: analyzeBsdiff_def skipSeries_def drop_report_def)
  next
    case (Inr t)
    with assms(1) f h obtain tf where tf: "idx (ddc_target ddc) t = Some tf"
      by (auto simp: analyzeBsdiff_def split: option.splits)
    obtain res r2 where a: "analyzeBsdiff_ops r1 0 0 0 = (res, r2)"
      by (cases "analyzeBsdiff_ops r1 0 0 0")
    with skip_bsdiff_ops_eq[of r1 0 0 0]
    have s: "skip_bsdiff_ops r1 = (drop_report res, r2)" by simp
    show ?thesis
    proof (cases res)
      case e: (Inl e)
      with Inr f h tf a s assms(2) show ?thesis
        by (simp add: analyzeBsdiff_def skipSeries_def drop_report_def)
    next
      case p: (Inr p)
      with Inr f h tf a s assms(2) show ?thesis
        by (auto simp: analyzeBsdiff_def skipSeries_def drop_report_def split: prod.splits sum.splits)
    qed
  qed
qed

lemma analyze_skip:
  assumes "fst (analyzeSeries ddc sh) \<noteq> Inl Panic"
  shows "skipSeries ddc sh = (drop_report (fst (analyzeSeries ddc sh)), snd (analyzeSeries ddc sh))"
proof (cases "sh_Type sh")
  case RSYNC
  with assms analyze_skip_rsync[of ddc sh] show ?thesis by (simp add: analyzeSeries_def)
next
  case BSDIFF
  with assms analyze_skip_bsdiff[of ddc sh] show ?thesis by (simp add: analyzeSeries_def)
next
  case (OtherSeries t)
  then show ?thesis by (simp add: analyzeSeries_def skipSeries_def drop_report_def)
qed

lemma bump_keys: "fst ` set (bump m i n) = insert i (fst ` set m)"
  by (induction m i n rule: bump.induct) auto

lemma analyzeRsync_ops_wf:
  "rsync_series_end tgt r = Some r2 \<Longrightarrow> \<forall>k\<in>fst ` set tb. idx tgt k \<noteq> None \<Longrightarrow>
     \<exists>tb'. analyzeRsync_ops r tb = (Inr tb', r2) \<and> (\<forall>k\<in>fst ` set tb'. idx tgt k \<noteq> None)"
proof (induction tgt r arbitrary: tb rule: rsync_series_end.induct)
  case (1 tgt x r)
  show ?case
  proof (cases "op_Type x")
    case BLOCK_RANGE
    with "1.prems" have v: "idx tgt (op_FileIndex x) \<noteq> None" and e: "rsync_series_end tgt r = Some r2"
      by (auto split: if_splits)
    have "\<forall>k\<in>fst ` set (bump tb (op_FileIndex x) (op_BlockSpan x)). idx tgt k \<noteq> None"
      using v "1.prems"(2) by (simp add: bump_keys)
    from "1.IH"(1)[OF BLOCK_RANGE v e this] BLOCK_RANGE show ?thesis
      by (subst analyzeRsync_ops.simps) simp
  next
    case DATA
    with "1.prems" have e: "rsync_series_end tgt r = Some r2" by simp
    from "1.IH"(2)[OF DATA e "1.prems"(2)] DATA show ?thesis
      by (subst analyzeRsync_ops.simps) simp
  next
    case HEY_YOU_DID_IT
    with "1.prems" show ?thesis by (subst analyzeRsync_ops.simps) simp
  next
    case (OtherOp t)
    with "1.prems" show ?thesis by simp
  qed
qed simp_all

lemma analyzeBsdiff_ops_wf:
  "triples_end r = Some r2 \<Longrightarrow> \<exists>p. analyzeBsdiff_ops r a b c = (Inr p, r2)"
proof (induction r arbitrary: a b c rule: triples_end.induct)
  case (1 x r)
  then show ?case by (subst analyzeBsdiff_ops.simps) (auto split: if_splits)
qed simp_all

lemma analyze_wf:
  assumes "series_end (ddc_target ddc) sh (ddc_rctx ddc) = Some r2"
    and "idx (ddc_source ddc) (sh_FileIndex sh) \<noteq> None"
  shows "\<exists>rep. analyzeSeries ddc sh = (Inr rep, ddc\<lparr>ddc_rctx := r2\<rparr>)"
proof (cases "sh_Type sh")
  case RSYNC
  with assms(1) have "rsync_series_end (ddc_target ddc) (ddc_rctx ddc) = Some r2"
    by (simp add: series_end_def)
  from analyzeRsync_ops_wf[OF this, of "[]"] obtain tb where
    "analyzeRsync_ops (ddc_rctx ddc) [] = (Inr tb, r2)" "\<forall>k\<in>fst ` set tb. idx (ddc_target ddc) k \<noteq> None"
    by auto
  then have "analyzeRsync ddc sh = (Inr (RsyncReport tb), ddc\<lparr>ddc_rctx := r2\<rparr>)"
    using assms(2) by (fastforce simp: analyzeRsync_def list_all_iff)
  with RSYNC show ?thesis by (simp add: analyzeSeries_def)
next
  case BSDIFF
  with assms(1) have b: "bsdiff_series_end (ddc_target ddc) (ddc_rctx ddc) = Some r2"
    by (simp add: series_end_def)
  then obtain t r1 x where r: "ddc_rctx ddc = MBsdiffHeader t # r1"
    and t: "idx (ddc_target ddc) t \<noteq> None"
    and te: "triples_end r1 = Some (MSyncOp x # r2)" and x: "op_Type x = HEY_YOU_DID_IT"
    by (cases "(ddc_target ddc, ddc_rctx ddc)" rule: bsdiff_series_end.cases)
       (auto split: if_splits option.splits list.splits msg.splits)
  from analyzeBsdiff_ops_wf[OF te] obtain p where
    "analyzeBsdiff_ops r1 0 0 0 = (Inr p, MSyncOp x # r2)" by blast
  with r t x assms(2) have "analyzeBsdiff ddc sh = (Inr (BsdiffReport p), ddc\<lparr>ddc_rctx := r2\<rparr>)"
    by (auto simp: analyzeBsdiff_def)
  with BSDIFF show ?thesis by (simp add: analyzeSeries_def)
next
  case (OtherSeries t)
  with assms(1) show ?thesis by (simp add: series_end_def)
qed

lemma skip_wf:
  assumes "series_end (ddc_target ddc) sh (ddc_rctx ddc) = Some r2"
    and "idx (ddc_source ddc) (sh_FileIndex sh) \<noteq> None"
  shows "skipSeries ddc sh = (Inr (), ddc\<lparr>ddc_rctx := r2\<rparr>)"
proof -
  from analyze_wf[OF assms] obtain rep where a: "analyzeSeries ddc sh = (Inr rep, ddc\<lparr>ddc_rctx := r2\<rparr>)"
    by blast
  then have "fst (analyzeSeries ddc sh) \<noteq> Inl Panic" by simp
  from analyze_skip[OF this] a show ?thesis by (simp add: drop_report_def)
qed

lemma deep_files_wf:
  "stream_end (ddc_target ddc) i (length fs) (ddc_rctx ddc) = Some rest \<Longrightarrow>
   0 \<le> i \<Longrightarrow> int (length (ddc_source ddc)) = i + int (length fs) \<Longrightarrow>
   deep_files topIndexMap ddc i fs = (Inr (), ddc\<lparr>ddc_rctx := rest\<rparr>)"
proof (induction fs arbitrary: ddc i)
  case Nil
  then show ?case by simp
next
  case (Cons f fs)
  from Cons.prems(1) obtain sh r1 r2 where r: "ddc_rctx ddc = MSyncHeader sh # r1"
    and i: "sh_FileIndex sh = i"
    and se: "series_end (ddc_target ddc) sh r1 = Some r2"
    and st: "stream_end (ddc_target ddc) (i + 1) (length fs) r2 = Some rest"
    by (cases "(ddc_target ddc, i, length (f # fs), ddc_rctx ddc)" rule: stream_end.cases)
       (auto split: if_splits option.splits)
  let ?d1 = "ddc\<lparr>ddc_rctx := r1\<rparr>"
  let ?d2 = "ddc\<lparr>ddc_rctx := r2\<rparr>"
  from Cons.prems(2,3) i have src: "idx (ddc_source ?d1) (sh_FileIndex sh) \<noteq> None"
    by (simp add: idx_def)
  from se have se1: "series_end (ddc_target ?d1) sh (ddc_rctx ?d1) = Some r2" by simp
  from analyze_wf[OF se1 src] obtain rep where a: "analyzeSeries ?d1 sh = (Inr rep, ?d2)" by auto
  from skip_wf[OF se1 src] have s: "skipSeries ?d1 sh = (Inr (), ?d2)" by simp
  have rec: "deep_files topIndexMap ?d2 (i + 1) fs = (Inr (), ?d2\<lparr>ddc_rctx := rest\<rparr>)"
    by (rule Cons.IH) (use st Cons.prems in auto)
  show ?case using r i a s rec by simp
qed

text \<open>
  Claim C9. Skipping a series reads the same messages as analysing it: unless the analysis
  panics on a file index, both leave the stream at the same place and both fail or both
  succeed, with the same error. On a well-formed stream of one series per source file, the
  loop of \<open>doDeepAnalysis\<close> reads all the series and stops behind the last one, whichever
  files it analyses and whichever it skips.
\<close>

theorem skip_consumes_like_analyze:
  "(fst (analyzeSeries ddc sh) \<noteq> Inl Panic \<longrightarrow>
      ddc_rctx (snd (skipSeries ddc sh)) = ddc_rctx (snd (analyzeSeries ddc sh)) \<and>
      fst (skipSeries ddc sh) = drop_report (fst (analyzeSeries ddc sh)))
   \<and> (stream_end (ddc_target ddc') 0 (length (ddc_source ddc')) (ddc_rctx ddc') = Some rest \<longrightarrow>
      doDeepAnalysis topIndexMap ddc' = (Inr (), ddc'\<lparr>ddc_rctx := rest\<rparr>))"
proof (intro conjI impI)
  assume "fst (analyzeSeries ddc sh) \<noteq> Inl Panic"
  from analyze_skip[OF this]
  show "ddc_rctx (snd (skipSeries ddc sh)) = ddc_rctx (snd (analyzeSeries ddc sh))"
    and "fst (skipSeries ddc sh) = drop_report (fst (analyzeSeries ddc sh))" by simp_all
next
  assume "stream_end (ddc_target ddc') 0 (length (ddc_source ddc')) (ddc_rctx ddc') = Some rest"
  from deep_files_wf[OF this]
  show "doDeepAnalysis topIndexMap ddc' = (Inr (), ddc'\<lparr>ddc_rctx := rest\<rparr>)"
    by (simp add: doDeepAnalysis_def)
qed

theorem skip_consumes_like_analyze_witness:
  "fst (analyzeSeries
          \<lparr>ddc_target = [\<lparr>f_Path = ''a'', f_Size = 1\<rparr>],
           ddc_source = [\<lparr>f_Path = ''a'', f_Size = 1\<rparr>, \<lparr>f_Path = ''b'', f_Size = 2\<rparr>],
           ddc_rctx = [MBsdiffHeader 0,
                       MControl \<lparr>ctl_Add = [0], ctl_Copy = [], ctl_Seek = 0, ctl_Eof = False\<rparr>,
                       MControl \<lparr>ctl_Add = [], ctl_Copy = [], ctl_Seek = 0, ctl_Eof = True\<rparr>,
                       MSyncOp \<lparr>op_Type = HEY_YOU_DID_IT, op_FileIndex = 0, op_BlockIndex = 0,
                                op_BlockSpan = 0, op_Data = []\<rparr>,
                       MSyncHeader \<lparr>sh_Type = RSYNC, sh_FileIndex = 1\<rparr>]\<rparr>
          \<lparr>sh_Type = BSDIFF, sh_FileIndex = 0\<rparr>) \<noteq> Inl Panic
   \<and> ddc_rctx (snd (skipSeries
          \<lparr>ddc_target = [\<lparr>f_Path = ''a'', f_Size = 1\<rparr>],
           ddc_source = [\<lparr>f_Path = ''a'', f_Size = 1\<rparr>, \<lparr>f_Path = ''b'', f_Size = 2\<rparr>],
           ddc_rctx = [MBsdiffHeader 0,
                       MControl \<lparr>ctl_Add = [0], ctl_Copy = [], ctl_Seek = 0, ctl_Eof = False\<rparr>,
                       MControl \<lparr>ctl_Add = [], ctl_Copy = [], ctl_Seek = 0, ctl_Eof = True\<rparr>,
                       MSyncOp \<lparr>op_Type = HEY_YOU_DID_IT, op_FileIndex = 0, op_BlockIndex = 0,
                                op_BlockSpan = 0, op_Data = []\<rparr>,
                       MSyncHeader \<lparr>sh_Type = RSYNC, sh_FileIndex = 1\<rparr>]\<rparr>
          \<lparr>sh_Type = BSDIFF, sh_FileIndex = 0\<rparr>))
       = [MSyncHeader \<lparr>sh_Type = RSYNC, sh_FileIndex = 1\<rparr>]
   \<and> stream_end [\<lparr>f_Path = ''a'', f_Size = 1\<rparr>] 0 2
         [MSyncHeader \<lparr>sh_Type = RSYNC, sh_FileIndex = 0\<rparr>,
          MSyncOp \<lparr>op_Type = BLOCK_RANGE, op_FileIndex = 0, op_BlockIndex = 0, op_BlockSpan = 1,
                   op_Data = []\<rparr>,
          MSyncOp \<lparr>op_Type = HEY_YOU_DID_IT, op_FileIndex = 0, op_BlockIndex = 0,
                   op_BlockSpan = 0, op_Data = []\<rparr>,
          MSyncHeader \<lparr>sh_Type = BSDIFF, sh_FileIndex = 1\<rparr>,
          MBsdiffHeader 0,
          MControl \<lparr>ctl_Add = [], ctl_Copy = [], ctl_Seek = 0, ctl_Eof = True\<rparr>,
          MSyncOp \<lparr>op_Type = HEY_YOU_DID_IT, op_FileIndex = 0, op_BlockIndex = 0,
                   op_BlockSpan = 0, op_Data = []\<rparr>] = Some []
   \<and> doDeepAnalysis (\<lambda>i. i = 1)
         \<lparr>ddc_target = [\<lparr>f_Path = ''a'', f_Size = 1\<rparr>],
          ddc_source = [\<lparr>f_Path = ''a'', f_Size = 1\<rparr>, \<lparr>f_Path = ''b'', f_Size = 2\<rparr>],
          ddc_rctx =
            [MSyncHeader \<lparr>sh_Type = RSYNC, sh_FileIndex = 0\<rparr>,
             MSyncOp \<lparr>op_Type = BLOCK_RANGE, op_FileIndex = 0, op_BlockIndex = 0, op_BlockSpan = 1,
                      op_Data = []\<rparr>,
             MSyncOp \<lparr>op_Type = HEY_YOU_DID_IT, op_FileIndex = 0, op_BlockIndex = 0,
                      op_BlockSpan = 0, op_Data = []\<rparr>,
             MSyncHeader \<lparr>sh_Type = BSDIFF, sh_FileIndex = 1\<rparr>,
             MBsdiffHeader 0,
             MControl \<lparr>ctl_Add = [], ctl_Copy = [], ctl_Seek = 0, ctl_Eof = True\<rparr>,
             MSyncOp \<lparr>op_Type = HEY_YOU_DID_IT, op_FileIndex = 0, op_BlockIndex = 0,
                      op_BlockSpan = 0, op_Data = []\<rparr>]\<rparr>
       = (Inr (),
          \<lparr>ddc_target = [\<lparr>f_Path = ''a'', f_Size = 1\<rparr>],
           ddc_source = [\<lparr>f_Path = ''a'', f_Size = 1\<rparr>, \<lparr>f_Path = ''b'', f_Size = 2\<rparr>],
           ddc_rctx = []\<rparr>)"
proof -
  let ?fa = "\<lparr>f_Path = ''a'', f_Size = 1\<rparr>"
  let ?fb = "\<lparr>f_Path = ''b'', f_Size = 2\<rparr>"
  let ?hey = "MSyncOp \<lparr>op_Type = HEY_YOU_DID_IT, op_FileIndex = 0, op_BlockIndex = 0,
                       op_BlockSpan = 0, op_Data = []\<rparr>"
  let ?eof = "MControl \<lparr>ctl_Add = [], ctl_Copy = [], ctl_Seek = 0, ctl_Eof = True\<rparr>"
  let ?ddc = "\<lparr>ddc_target = [?fa], ddc_source = [?fa, ?fb],
               ddc_rctx = [MBsdiffHeader 0,
                           MControl \<lparr>ctl_Add = [0], ctl_Copy = [], ctl_Seek = 0, ctl_Eof = False\<rparr>,
                           ?eof, ?hey, MSyncHeader \<lparr>sh_Type = RSYNC, sh_FileIndex = 1\<rparr>]\<rparr>"
  let ?sh = "\<lparr>sh_Type = BSDIFF, sh_FileIndex = 0\<rparr>"
  let ?r = "[MSyncHeader \<lparr>sh_Type = RSYNC, sh_FileIndex = 0\<rparr>,
             MSyncOp \<lparr>op_Type = BLOCK_RANGE, op_FileIndex = 0, op_BlockIndex = 0, op_BlockSpan = 1,
                      op_Data = []\<rparr>,
             ?hey, MSyncHeader \<lparr>sh_Type = BSDIFF, sh_FileIndex = 1\<rparr>, MBsdiffHeader 0, ?eof, ?hey]"
  let ?ddc' = "\<lparr>ddc_target = [?fa], ddc_source = [?fa, ?fb], ddc_rctx = ?r\<rparr>"
  have a: "analyzeSeries ?ddc ?sh
     = (Inr (BsdiffReport 1), ?ddc\<lparr>ddc_rctx := [MSyncHeader \<lparr>sh_Type = RSYNC, sh_FileIndex = 1\<rparr>]\<rparr>)"
    by (simp add: analyzeSeries_def analyzeBsdiff_def idx_def analyzeBsdiff_ops.simps
        count_unchanged_def i64_id)
  have w: "stream_end [?fa] 0 2 ?r = Some []"
    by (simp add: numeral_2_eq_2 series_end_def idx_def)
  have w': "stream_end (ddc_target ?ddc') 0 (length (ddc_source ?ddc')) (ddc_rctx ?ddc') = Some []"
    by (simp add: series_end_def idx_def)
  have np: "fst (analyzeSeries ?ddc ?sh) \<noteq> Inl Panic" using a by simp
  note th = skip_consumes_like_analyze[of ?ddc ?sh ?ddc' "[]" "\<lambda>i. i = 1"]
  have c1: "ddc_rctx (snd (skipSeries ?ddc ?sh)) = ddc_rctx (snd (analyzeSeries ?ddc ?sh))"
    by (rule th[THEN conjunct1, THEN mp, OF np, THEN conjunct1])
  have c2: "doDeepAnalysis (\<lambda>i. i = 1) ?ddc' = (Inr (), ?ddc'\<lparr>ddc_rctx := []\<rparr>)"
    by (rule th[THEN conjunct2, THEN mp, OF w'])
  have c1': "ddc_rctx (snd (skipSeries ?ddc ?sh)) = [MSyncHeader \<lparr>sh_Type = RSYNC, sh_FileIndex = 1\<rparr>]"
    using c1 a by simp
  have c2': "doDeepAnalysis (\<lambda>i. i = 1) ?ddc' = (Inr (), \<lparr>ddc_target = [?fa], ddc_source = [?fa, ?fb],
      ddc_rctx = []\<rparr>)"
    using c2 by simp
  show ?thesis
    by (intro conjI) (rule np, rule c1', rule w, rule c2')
qed

section \<open>Properties of the search and of concrete diffs\<close>




text \<open>
  Claim C6. For the empty buffer \<open>qsufsort\<close> returns, without entering its doubling loop,
  the suffix array whose only entry is the sentinel position 0.
\<close>

theorem qsufsort_empty: "qsufsort [] = Some (Some [0])"
  by code_simp

lemma bsdiff_abcXefgh_run:
  "BSDiff (bytes ''abcdefgh'') (bytes ''abcXefgh'') \<lparr>sent = [], limit = None\<rparr> =
     Some (Inr \<lparr>sent = [MBsdiffControl \<lparr>Add = 8, Copy = 0, Seek = - 4\<rparr>,
                          MBsdiffControl \<lparr>Add = - 1, Copy = 0, Seek = 0\<rparr>,
                          MBsdiffDiff [0, 0, 0, of_char CHR ''X'' - of_char CHR ''d'', 0, 0, 0, 0],
                          MBsdiffExtra []],
                  limit = None\<rparr>)"
  by code_simp

text \<open>
  Claim C8, as the code has it. For \<open>old = abcdefgh\<close> and \<open>new = abcXefgh\<close>, \<open>BSDiff\<close> writes
  one control triple before the sentinel, with \<open>Add = 8\<close>, \<open>Copy = 0\<close> and \<open>Seek = -4\<close> (the
  last match found is at offset 4 of the old buffer, and the cursor stands at 8), then add
  data of 8 bytes, all zero but the byte \<open>'X' - 'd'\<close> at position 3, then empty extra data;
  \<open>BSPatch\<close> applied to \<open>old\<close> and this patch writes \<open>new\<close>.
\<close>

theorem bsdiff_abcXefgh:
  "BSDiff (bytes ''abcdefgh'') (bytes ''abcXefgh'') \<lparr>sent = [], limit = None\<rparr> =
     Some (Inr \<lparr>sent = [MBsdiffControl \<lparr>Add = 8, Copy = 0, Seek = - 4\<rparr>,
                          MBsdiffControl \<lparr>Add = - 1, Copy = 0, Seek = 0\<rparr>,
                          MBsdiffDiff [0, 0, 0, of_char CHR ''X'' - of_char CHR ''d'', 0, 0, 0, 0],
                          MBsdiffExtra []],
                  limit = None\<rparr>)
   \<and> BSPatch (bytes ''abcdefgh'') \<lparr>bw_written = [], bw_room = None\<rparr> 8
         [MBsdiffControl \<lparr>Add = 8, Copy = 0, Seek = - 4\<rparr>,
          MBsdiffControl \<lparr>Add = - 1, Copy = 0, Seek = 0\<rparr>,
          MBsdiffDiff [0, 0, 0, of_char CHR ''X'' - of_char CHR ''d'', 0, 0, 0, 0],
          MBsdiffExtra []]
       = (Inr (), [], \<lparr>bw_written = bytes ''abcXefgh'', bw_room = None\<rparr>)"
proof -
  have "BSPatch (bytes ''abcdefgh'') \<lparr>bw_written = [], bw_room = None\<rparr> 8
         [MBsdiffControl \<lparr>Add = 8, Copy = 0, Seek = - 4\<rparr>,
          MBsdiffControl \<lparr>Add = - 1, Copy = 0, Seek = 0\<rparr>,
          MBsdiffDiff [0, 0, 0, of_char CHR ''X'' - of_char CHR ''d'', 0, 0, 0, 0],
          MBsdiffExtra []]
       = (Inr (), [], \<lparr>bw_written = bytes ''abcXefgh'', bw_room = None\<rparr>)"
    by code_simp
  with bsdiff_abcXefgh_run show ?thesis by simp
qed

text \<open>
  Claim C8 as stated fails: the control triple written does not have \<open>Seek = 0\<close>.
\<close>

theorem bsdiff_abcXefgh_seek_counterexample:
  "BSDiff (bytes ''abcdefgh'') (bytes ''abcXefgh'') \<lparr>sent = [], limit = None\<rparr> \<noteq>
     Some (Inr \<lparr>sent = [MBsdiffControl \<lparr>Add = 8, Copy = 0, Seek = 0\<rparr>,
                          MBsdiffControl \<lparr>Add = - 1, Copy = 0, Seek = 0\<rparr>,
                          MBsdiffDiff [0, 0, 0, of_char CHR ''X'' - of_char CHR ''d'', 0, 0, 0, 0],
                          MBsdiffExtra []],
                  limit = None\<rparr>)"
  by (simp add: bsdiff_abcXefgh_run)

end
